theory Spec2Isabelle
  imports Complex_Main "HOL-Library.Word"
begin

section \<open>JavaScript numbers\<close>

text \<open>
  The engine of \<^verbatim>\<open>src/ar/AREngineSimple.js\<close> computes on JavaScript numbers, which
  are IEEE 754 double-precision numbers. A number is modelled as a real (the value of a
  finite double), one of the two infinities, or NaN. Every arithmetic operation and every
  decimal literal is rounded to the nearest double, ties to even, as the machine does.
  The sign of zero is not modelled. Reading a typed array out of range gives
  \<^verbatim>\<open>undefined\<close>, which \<^verbatim>\<open>isNaN\<close>, the arithmetic operators and the comparisons
  treat as NaN, so the model reads NaN there.
\<close>

datatype jsnum = Fin real | PInf | NInf | NaN

text \<open>The power of two with an integer exponent.\<close>

definition pow2 :: "int \<Rightarrow> real" where
  "pow2 e = (if 0 \<le> e then 2 ^ nat e else 1 / 2 ^ nat (- e))"

text \<open>The nearest integer, a tie going to the even one.\<close>

definition roundEven :: "real \<Rightarrow> int" where
  "roundEven r =
     (let f = \<lfloor>r\<rfloor>
      in if r - of_int f < 1 / 2 then f
         else if 1 / 2 < r - of_int f then f + 1
         else if even f then f else f + 1)"

text \<open>
  The exponent of the unit in the last place of the doubles around \<open>x\<close>: 52 below the
  binary exponent of \<open>x\<close>, which is taken as at least -1022 (below it the doubles are
  subnormal and the unit stays at exponent -1074).
\<close>

definition ulpExp :: "real \<Rightarrow> int" where
  "ulpExp x = max \<lfloor>log 2 \<bar>x\<bar>\<rfloor> (- 1022) - 52"

text \<open>Rounding to 53 significant bits, before the check for overflow.\<close>

definition rd :: "real \<Rightarrow> real" where
  "rd x = of_int (roundEven (x / pow2 (ulpExp x))) * pow2 (ulpExp x)"

text \<open>The double nearest to a real; a result of magnitude 2 to the 1024 or more is infinite.\<close>

definition roundDouble :: "real \<Rightarrow> jsnum" where
  "roundDouble x =
     (if pow2 1024 \<le> rd x then PInf
      else if rd x \<le> - pow2 1024 then NInf
      else Fin (rd x))"

text \<open>
  A decimal literal of the source, \<open>m\<close> divided by the \<open>k\<close>-th power of ten (0.15 is
  \<open>decimal 15 2\<close>): the double nearest to its value.
\<close>

definition decimal :: "int \<Rightarrow> int \<Rightarrow> jsnum" where
  "decimal m k = roundDouble (of_int m / 10 ^ nat k)"

fun isNaN :: "jsnum \<Rightarrow> bool" where
  "isNaN NaN = True"
| "isNaN _ = False"

fun jneg :: "jsnum \<Rightarrow> jsnum" where
  "jneg (Fin a) = Fin (- a)"
| "jneg PInf = NInf"
| "jneg NInf = PInf"
| "jneg NaN = NaN"

fun jadd :: "jsnum \<Rightarrow> jsnum \<Rightarrow> jsnum" where
  "jadd (Fin a) (Fin b) = roundDouble (a + b)"
| "jadd NaN _ = NaN"
| "jadd _ NaN = NaN"
| "jadd PInf NInf = NaN"
| "jadd NInf PInf = NaN"
| "jadd PInf _ = PInf"
| "jadd _ PInf = PInf"
| "jadd NInf _ = NInf"
| "jadd _ NInf = NInf"

definition jsub :: "jsnum \<Rightarrow> jsnum \<Rightarrow> jsnum" where
  "jsub a b = jadd a (jneg b)"

text \<open>The sign of a number that is not NaN: 1, 0 or -1.\<close>

fun jsign :: "jsnum \<Rightarrow> int" where
  "jsign (Fin a) = (if a < 0 then - 1 else if a = 0 then 0 else 1)"
| "jsign PInf = 1"
| "jsign NInf = - 1"
| "jsign NaN = 0"

definition jinf :: "int \<Rightarrow> jsnum" where
  "jinf sg = (if sg = 0 then NaN else if sg < 0 then NInf else PInf)"

fun jmul :: "jsnum \<Rightarrow> jsnum \<Rightarrow> jsnum" where
  "jmul (Fin a) (Fin b) = roundDouble (a * b)"
| "jmul NaN _ = NaN"
| "jmul _ NaN = NaN"
| "jmul a b = jinf (jsign a * jsign b)"

fun jdiv :: "jsnum \<Rightarrow> jsnum \<Rightarrow> jsnum" where
  "jdiv (Fin a) (Fin b) = (if b = 0 then jinf (jsign (Fin a)) else roundDouble (a / b))"
| "jdiv NaN _ = NaN"
| "jdiv _ NaN = NaN"
| "jdiv (Fin a) _ = Fin 0"
| "jdiv a (Fin b) = jinf (jsign a * (if b < 0 then - 1 else 1))"
| "jdiv _ _ = NaN"

fun jsqrt :: "jsnum \<Rightarrow> jsnum" where
  "jsqrt (Fin a) = (if a < 0 then NaN else roundDouble (sqrt a))"
| "jsqrt PInf = PInf"
| "jsqrt _ = NaN"

fun jlt :: "jsnum \<Rightarrow> jsnum \<Rightarrow> bool" where
  "jlt (Fin a) (Fin b) = (a < b)"
| "jlt NaN _ = False"
| "jlt _ NaN = False"
| "jlt NInf (Fin b) = True"
| "jlt NInf PInf = True"
| "jlt (Fin a) PInf = True"
| "jlt _ _ = False"

text \<open>\<^verbatim>\<open>Math.max\<close> and \<^verbatim>\<open>Math.min\<close> of two arguments: NaN as soon as one is NaN.\<close>

definition jmax :: "jsnum \<Rightarrow> jsnum \<Rightarrow> jsnum" where
  "jmax a b = (if isNaN a \<or> isNaN b then NaN else if jlt a b then b else a)"

definition jmin :: "jsnum \<Rightarrow> jsnum \<Rightarrow> jsnum" where
  "jmin a b = (if isNaN a \<or> isNaN b then NaN else if jlt b a then b else a)"

text \<open>An array length as a number.\<close>

definition jlen :: "'a list \<Rightarrow> jsnum" where
  "jlen xs = Fin (real (length xs))"

section \<open>Data model\<close>

text \<open>
  A \<^verbatim>\<open>cv.Mat\<close>: its dimensions and the two views of its buffer that the engine reads,
  the bytes (\<^verbatim>\<open>data\<close>) and the 32-bit floats (\<^verbatim>\<open>data32F\<close>). A point matrix has one
  row per point and the coordinates flattened in \<^verbatim>\<open>data32F\<close>.
\<close>

record mat =
  rows :: nat
  cols :: nat
  data :: "8 word list"
  data32F :: "jsnum list"

text \<open>\<^verbatim>\<open>new cv.Mat()\<close>\<close>

definition newMat :: mat where
  "newMat = \<lparr>rows = 0, cols = 0, data = [], data32F = []\<rparr>"

text \<open>\<^verbatim>\<open>new cv.Mat(rows, cols, cv.CV_8UC4)\<close>\<close>

definition newMat8UC4 :: "nat \<Rightarrow> nat \<Rightarrow> mat" where
  "newMat8UC4 r c = \<lparr>rows = r, cols = c, data = replicate (r * c * 4) 0, data32F = []\<rparr>"

text \<open>\<^verbatim>\<open>cv.matFromArray(rows, cols, cv.CV_32FC2, array)\<close>\<close>

definition matFromArray :: "nat \<Rightarrow> nat \<Rightarrow> jsnum list \<Rightarrow> mat" where
  "matFromArray r c arr = \<lparr>rows = r, cols = c, data = [], data32F = arr\<rparr>"

text \<open>Reads \<^verbatim>\<open>m.data32F[i]\<close> and \<^verbatim>\<open>m.data[i]\<close>; out of range the read is undefined.\<close>

definition at32F :: "mat \<Rightarrow> nat \<Rightarrow> jsnum" where
  "at32F m i = (if i < length (data32F m) then data32F m ! i else NaN)"

definition atData :: "mat \<Rightarrow> nat \<Rightarrow> 8 word option" where
  "atData m i = (if i < length (data m) then Some (data m ! i) else None)"

record point =
  pt_x :: jsnum
  pt_y :: jsnum

text \<open>An entry of \<^verbatim>\<open>trackedPoints\<close>: \<^verbatim>\<open>{ prev: {x, y}, curr: {x, y} }\<close>.\<close>

record correspondence =
  prev :: point
  curr :: point

record motion =
  m_dx :: jsnum
  m_dy :: jsnum

text \<open>\<^verbatim>\<open>groundPlane\<close>: \<^verbatim>\<open>{ center, confidence, motion }\<close>.\<close>

record plane =
  center :: point
  confidence :: jsnum
  motion :: motion

record vec3 =
  v_x :: jsnum
  v_y :: jsnum
  v_z :: jsnum

text \<open>\<^verbatim>\<open>currentPose\<close>: \<^verbatim>\<open>{ position, rotation, planeCenter, confidence }\<close>.\<close>

record pose =
  position :: vec3
  rotation :: vec3
  planeCenter :: point
  pose_confidence :: jsnum

record imu =
  alpha :: jsnum
  beta :: jsnum
  gamma :: jsnum

record settings =
  maxCorners :: nat
  qualityLevel :: real
  minDistance :: nat
  blockSize :: nat
  winSize :: nat
  maxLevel :: nat
  minFeatures :: nat
  featureRefreshInterval :: nat

text \<open>
  The fields of \<^verbatim>\<open>AREngineSimple\<close>. A matrix field is \<open>None\<close> while it is
  \<^verbatim>\<open>null\<close>, as the constructor leaves it. The debug canvas and its context belong to
  the page, not to the engine, and are left out, with \<^verbatim>\<open>showDebug\<close>, which only
  \<^verbatim>\<open>setDebugVisible\<close> touches.
\<close>

record engine =
  frame :: "mat option"
  grayFrame :: "mat option"
  prevGrayFrame :: "mat option"
  prevPoints :: "mat option"
  nextPoints :: "mat option"
  status :: "mat option"
  err :: "mat option"
  isTracking :: bool
  currentPose :: "pose option"
  trackedPoints :: "correspondence list"
  goodFeatures :: "point list"
  groundPlane :: "plane option"
  planeConfidence :: jsnum
  imuData :: imu
  settings :: settings
  frameCount :: nat
  initialized :: bool
  lastLogTime :: int

text \<open>The constructor.\<close>

definition defaultSettings :: settings where
  "defaultSettings = \<lparr>maxCorners = 200, qualityLevel = rd (1 / 100), minDistance = 15,
     blockSize = 7, winSize = 21, maxLevel = 3, minFeatures = 15,
     featureRefreshInterval = 15\<rparr>"

definition newEngine :: engine where
  "newEngine = \<lparr>frame = None, grayFrame = None, prevGrayFrame = None,
     prevPoints = None, nextPoints = None, status = None, err = None,
     isTracking = False, currentPose = None, trackedPoints = [], goodFeatures = [],
     groundPlane = None, planeConfidence = Fin 0,
     imuData = \<lparr>alpha = Fin 0, beta = Fin 0, gamma = Fin 0\<rparr>,
     settings = defaultSettings, frameCount = 0, initialized = False, lastLogTime = 0\<rparr>"

section \<open>Plane estimation\<close>

text \<open>The two accumulation loops of \<^verbatim>\<open>estimatePlane\<close> over \<^verbatim>\<open>trackedPoints\<close>.\<close>

definition dispX :: "correspondence \<Rightarrow> jsnum" where
  "dispX pt = jsub (pt_x (curr pt)) (pt_x (prev pt))"

definition dispY :: "correspondence \<Rightarrow> jsnum" where
  "dispY pt = jsub (pt_y (curr pt)) (pt_y (prev pt))"

definition totalDX :: "correspondence list \<Rightarrow> jsnum" where
  "totalDX tps = foldl (\<lambda>acc pt. jadd acc (dispX pt)) (Fin 0) tps"

definition totalDY :: "correspondence list \<Rightarrow> jsnum" where
  "totalDY tps = foldl (\<lambda>acc pt. jadd acc (dispY pt)) (Fin 0) tps"

definition avgDX :: "correspondence list \<Rightarrow> jsnum" where
  "avgDX tps = jdiv (totalDX tps) (jlen tps)"

definition avgDY :: "correspondence list \<Rightarrow> jsnum" where
  "avgDY tps = jdiv (totalDY tps) (jlen tps)"

definition varStep :: "jsnum \<Rightarrow> jsnum \<Rightarrow> jsnum \<Rightarrow> correspondence \<Rightarrow> jsnum" where
  "varStep ax ay acc pt =
     (let dx = jsub (dispX pt) ax; dy = jsub (dispY pt) ay
      in jadd acc (jadd (jmul dx dx) (jmul dy dy)))"

definition motionVariance :: "correspondence list \<Rightarrow> jsnum" where
  "motionVariance tps =
     jdiv (foldl (varStep (avgDX tps) (avgDY tps)) (Fin 0) tps) (jlen tps)"

text \<open>The centre loop over \<^verbatim>\<open>goodFeatures\<close>.\<close>

definition centerX :: "point list \<Rightarrow> jsnum" where
  "centerX fs = jdiv (foldl (\<lambda>acc feat. jadd acc (pt_x feat)) (Fin 0) fs) (jlen fs)"

definition centerY :: "point list \<Rightarrow> jsnum" where
  "centerY fs = jdiv (foldl (\<lambda>acc feat. jadd acc (pt_y feat)) (Fin 0) fs) (jlen fs)"

text \<open>\<^verbatim>\<open>estimatePlane\<close>: what it returns and the engine after the call.\<close>

definition estimatePlane :: "engine \<Rightarrow> bool \<times> engine" where
  "estimatePlane s =
     (if length (trackedPoints s) < 8
      then (False, s\<lparr>planeConfidence := jmax (Fin 0) (jsub (planeConfidence s) (decimal 1 1))\<rparr>)
      else
        let isCoherent = jlt (motionVariance (trackedPoints s)) (Fin 100)
        in if isCoherent
           then
             let c = jmin (Fin 1) (jadd (planeConfidence s) (decimal 15 2));
                 s' = s\<lparr>planeConfidence := c,
                        groundPlane := Some \<lparr>center = \<lparr>pt_x = centerX (goodFeatures s),
                                                        pt_y = centerY (goodFeatures s)\<rparr>,
                                              confidence = c,
                                              motion = \<lparr>m_dx = avgDX (trackedPoints s),
                                                        m_dy = avgDY (trackedPoints s)\<rparr>\<rparr>\<rparr>
             in (jlt (Fin (1 / 2)) c, s')
           else (False, s\<lparr>planeConfidence := jmax (Fin 0) (jsub (planeConfidence s) (decimal 1 1))\<rparr>))"

text \<open>\<^verbatim>\<open>estimatePose\<close>\<close>

definition estimatePose :: "engine \<Rightarrow> engine" where
  "estimatePose s =
     (case groundPlane s of
        None \<Rightarrow> s
      | Some gp \<Rightarrow>
          let tx = jmul (jneg (m_dx (motion gp))) (decimal 1 3);
              ty = jmul (m_dy (motion gp)) (decimal 1 3);
              tz = Fin 3;
              rotX = jmul (beta (imuData s)) (jdiv (roundDouble pi) (Fin 180));
              rotY = jmul (gamma (imuData s)) (jdiv (roundDouble pi) (Fin 180));
              rotZ = jmul (alpha (imuData s)) (jdiv (roundDouble pi) (Fin 180))
          in s\<lparr>currentPose := Some \<lparr>position = \<lparr>v_x = tx, v_y = ty, v_z = tz\<rparr>,
                                     rotation = \<lparr>v_x = rotX, v_y = rotY, v_z = rotZ\<rparr>,
                                     planeCenter = center gp,
                                     pose_confidence = confidence gp\<rparr>\<rparr>)"

section \<open>The vision primitives\<close>

text \<open>
  OpenCV.js is not part of the repository. Its three functions that the engine calls are
  parameters of the model; each returns its output matrices, or the exception it throws.
  \<^verbatim>\<open>cvtColor\<close> takes the RGBA frame; \<^verbatim>\<open>goodFeaturesToTrack\<close> the image,
  \<^verbatim>\<open>maxCorners\<close>, \<^verbatim>\<open>qualityLevel\<close>, \<^verbatim>\<open>minDistance\<close> and \<^verbatim>\<open>blockSize\<close>;
  \<^verbatim>\<open>calcOpticalFlowPyrLK\<close> the two images, the points, \<^verbatim>\<open>winSize\<close> and
  \<^verbatim>\<open>maxLevel\<close>, and gives the next points, the status and the error matrix.
\<close>

datatype error = CvError | TypeError | RangeError

record cvlib =
  cvtColor :: "mat \<Rightarrow> error + mat"
  goodFeaturesToTrack :: "mat \<Rightarrow> nat \<Rightarrow> real \<Rightarrow> nat \<Rightarrow> nat \<Rightarrow> error + mat"
  calcOpticalFlowPyrLK :: "mat \<Rightarrow> mat \<Rightarrow> mat \<Rightarrow> nat \<Rightarrow> nat \<Rightarrow> error + (mat \<times> mat \<times> mat)"

section \<open>Feature detection and tracking\<close>

text \<open>\<^verbatim>\<open>detectFeatures\<close>: an exception of the detector leaves an empty point matrix.\<close>

definition detectFeatures :: "cvlib \<Rightarrow> engine \<Rightarrow> engine" where
  "detectFeatures cv s =
     (case grayFrame s of
        None \<Rightarrow> s\<lparr>prevPoints := Some newMat\<rparr>
      | Some g \<Rightarrow>
          (case goodFeaturesToTrack cv g (maxCorners (settings s)) (qualityLevel (settings s))
                  (minDistance (settings s)) (blockSize (settings s)) of
             Inl e \<Rightarrow> s\<lparr>prevPoints := Some newMat\<rparr>
           | Inr pts \<Rightarrow> s\<lparr>prevPoints := Some pts\<rparr>))"

text \<open>
  One iteration of the filter loop of \<^verbatim>\<open>trackPoints\<close>, at index \<open>i\<close>, on the three
  arrays \<^verbatim>\<open>goodFeatures\<close>, \<^verbatim>\<open>trackedPoints\<close> and \<^verbatim>\<open>newPrevPoints\<close>.
\<close>

definition filterStep ::
  "mat \<Rightarrow> mat \<Rightarrow> mat \<Rightarrow> point list \<times> correspondence list \<times> jsnum list \<Rightarrow> nat
   \<Rightarrow> point list \<times> correspondence list \<times> jsnum list" where
  "filterStep st pp np acc i =
     (case acc of (gf, tp, npp) \<Rightarrow>
        if atData st i = Some 1
        then
          let prevX = at32F pp (i * 2);
              prevY = at32F pp (i * 2 + 1);
              nextX = at32F np (i * 2);
              nextY = at32F np (i * 2 + 1)
          in if isNaN prevX \<or> isNaN nextX then (gf, tp, npp)
             else
               let dx = jsub nextX prevX;
                   dy = jsub nextY prevY;
                   dist = jsqrt (jadd (jmul dx dx) (jmul dy dy))
               in if jlt dist (Fin 50)
                  then (gf @ [\<lparr>pt_x = nextX, pt_y = nextY\<rparr>],
                        tp @ [\<lparr>prev = \<lparr>pt_x = prevX, pt_y = prevY\<rparr>,
                                curr = \<lparr>pt_x = nextX, pt_y = nextY\<rparr>\<rparr>],
                        npp @ [nextX, nextY])
                  else (gf, tp, npp)
        else (gf, tp, npp))"

definition filterLoop :: "mat \<Rightarrow> mat \<Rightarrow> mat \<Rightarrow> point list \<times> correspondence list \<times> jsnum list" where
  "filterLoop st pp np = foldl (filterStep st pp np) ([], [], []) [0..<rows st]"

text \<open>\<^verbatim>\<open>trackPoints\<close>\<close>

definition trackPoints :: "cvlib \<Rightarrow> engine \<Rightarrow> engine" where
  "trackPoints cv s =
     (case prevPoints s of
        None \<Rightarrow> s
      | Some pp \<Rightarrow>
          if rows pp = 0 then s
          else
            let s1 = s\<lparr>nextPoints := Some newMat, status := Some newMat, err := Some newMat\<rparr>;
                caught = s1\<lparr>goodFeatures := [], trackedPoints := []\<rparr>
            in case (prevGrayFrame s, grayFrame s) of
                 (Some pg, Some g) \<Rightarrow>
                   (case calcOpticalFlowPyrLK cv pg g pp (winSize (settings s))
                           (maxLevel (settings s)) of
                      Inl e \<Rightarrow> caught
                    | Inr (np, st, er) \<Rightarrow>
                        (case filterLoop st pp np of (gf, tp, npp) \<Rightarrow>
                           s\<lparr>nextPoints := Some np, status := Some st, err := Some er,
                             goodFeatures := gf, trackedPoints := tp,
                             prevPoints :=
                               Some (if length npp > 0
                                     then matFromArray (length npp div 2) 1 npp
                                     else newMat)\<rparr>))
               | _ \<Rightarrow> caught)"

section \<open>Processing a frame\<close>

text \<open>The video element: its dimensions and the RGBA bytes the canvas reads from it.\<close>

record video =
  videoWidth :: nat
  videoHeight :: nat
  pixels :: "8 word list"

record result =
  r_isTracking :: bool
  r_hasFeatures :: bool
  r_featureCount :: nat
  r_planeCount :: nat
  r_pose :: "pose option"
  r_imu :: imu

text \<open>The methods that \<^verbatim>\<open>processFrame\<close> calls, recorded in the order of the calls.\<close>

datatype call = CallDetectFeatures | CallTrackPoints | CallEstimatePlane
  | CallEstimatePose | CallDrawDebug

text \<open>A step inside the \<^verbatim>\<open>try\<close> block: the engine when it ends, or when it throws.\<close>

datatype outcome = Done engine | Thrown error engine

definition defaultResult :: "engine \<Rightarrow> result" where
  "defaultResult s = \<lparr>r_isTracking = False, r_hasFeatures = False, r_featureCount = 0,
     r_planeCount = 0, r_pose = None, r_imu = imuData s\<rparr>"

text \<open>
  Lines 144 to 165: the frame buffer is created again when the dimensions change, and
  the bytes of the video are copied into it (\<^verbatim>\<open>TypedArray.set\<close> throws when the source
  is longer than the target).
\<close>

definition captureFrame :: "video \<Rightarrow> engine \<Rightarrow> outcome" where
  "captureFrame v s =
     (let fr = (case frame s of
                  None \<Rightarrow> newMat8UC4 (videoHeight v) (videoWidth v)
                | Some f \<Rightarrow>
                    if rows f \<noteq> videoHeight v \<or> cols f \<noteq> videoWidth v
                    then newMat8UC4 (videoHeight v) (videoWidth v) else f)
      in if length (data fr) < length (pixels v)
         then Thrown RangeError (s\<lparr>frame := Some fr\<rparr>)
         else Done (s\<lparr>frame := Some (fr\<lparr>data := pixels v @ drop (length (pixels v)) (data fr)\<rparr>)\<rparr>))"

text \<open>Line 168: \<^verbatim>\<open>cv.cvtColor(this.frame, this.grayFrame, cv.COLOR_RGBA2GRAY)\<close>.\<close>

definition toGray :: "cvlib \<Rightarrow> engine \<Rightarrow> outcome" where
  "toGray cv s =
     (case (frame s, grayFrame s) of
        (Some fr, Some g) \<Rightarrow>
          (case cvtColor cv fr of
             Inl e \<Rightarrow> Thrown e s
           | Inr g' \<Rightarrow> Done (s\<lparr>grayFrame := Some g'\<rparr>))
      | _ \<Rightarrow> Thrown TypeError s)"

text \<open>Lines 131 to 136: the periodic log remembers when it last printed.\<close>

definition logTick :: "int \<Rightarrow> engine \<Rightarrow> engine" where
  "logTick now s = (if now - lastLogTime s > 2000 then s\<lparr>lastLogTime := now\<rparr> else s)"

text \<open>Lines 144 to 170: capture, grey conversion and the frame counter.\<close>

definition prepare :: "cvlib \<Rightarrow> video \<Rightarrow> engine \<Rightarrow> outcome" where
  "prepare cv v s =
     (case captureFrame v s of
        Thrown e s2 \<Rightarrow> Thrown e s2
      | Done s2 \<Rightarrow>
          (case toGray cv s2 of
             Thrown e s3 \<Rightarrow> Thrown e s3
           | Done s3 \<Rightarrow> Done (s3\<lparr>frameCount := frameCount s3 + 1\<rparr>)))"

text \<open>
  Lines 172 to 182: the refresh decision and the detection. The remainder of a number
  by 0 is NaN, which is not 0.
\<close>

definition needsRefresh :: "engine \<Rightarrow> mat \<Rightarrow> bool" where
  "needsRefresh s pp =
     (let needsFeatures = rows pp < minFeatures (settings s);
          refreshInterval = (featureRefreshInterval (settings s) \<noteq> 0 \<and>
             frameCount s mod featureRefreshInterval (settings s) = 0)
      in needsFeatures \<or> refreshInterval)"

definition refreshStage :: "cvlib \<Rightarrow> engine \<Rightarrow> error + (call list \<times> engine)" where
  "refreshStage cv s =
     (case prevPoints s of
        None \<Rightarrow> Inl TypeError
      | Some pp \<Rightarrow>
          if needsRefresh s pp then Inr ([CallDetectFeatures], detectFeatures cv s)
          else Inr ([], s))"

text \<open>Lines 184 to 205: tracking, plane and pose, or the report of the detected features.\<close>

definition trackStage :: "cvlib \<Rightarrow> result \<Rightarrow> engine \<Rightarrow> error + (result \<times> call list \<times> engine)" where
  "trackStage cv res s =
     (case prevGrayFrame s of
        None \<Rightarrow> Inl TypeError
      | Some pg \<Rightarrow>
          (case prevPoints s of
             None \<Rightarrow> Inl TypeError
           | Some pp \<Rightarrow>
               if rows pg > 0 \<and> rows pp \<ge> minFeatures (settings s)
               then
                 let s1 = trackPoints cv s;
                     r1 = res\<lparr>r_featureCount := length (goodFeatures s1),
                              r_hasFeatures := (length (goodFeatures s1) \<ge> minFeatures (settings s1))\<rparr>
                 in if r_hasFeatures r1
                    then
                      (case estimatePlane s1 of (planeFound, s2) \<Rightarrow>
                         let r2 = r1\<lparr>r_planeCount := (if planeFound then 1 else 0)\<rparr>
                         in if planeFound
                            then
                              let s3 = estimatePose s2
                              in Inr (r2\<lparr>r_isTracking := True, r_pose := currentPose s3\<rparr>,
                                      [CallTrackPoints, CallEstimatePlane, CallEstimatePose], s3)
                            else Inr (r2, [CallTrackPoints, CallEstimatePlane], s2))
                    else Inr (r1, [CallTrackPoints], s1)
               else Inr (res\<lparr>r_featureCount := rows pp, r_hasFeatures := (rows pp > 0)\<rparr>, [], s)))"

text \<open>Line 217, after the \<^verbatim>\<open>try\<close> block.\<close>

definition finish :: "result \<Rightarrow> call list \<Rightarrow> engine \<Rightarrow> result \<times> call list \<times> engine" where
  "finish res cs s = (res, cs, s\<lparr>isTracking := r_isTracking res\<rparr>)"

text \<open>
  \<^verbatim>\<open>processFrame\<close>, given \<^verbatim>\<open>Date.now()\<close> and the video: the result, the calls made and
  the engine after the call. An exception inside the \<^verbatim>\<open>try\<close> block is caught and
  logged; the engine keeps what was assigned before it. Logging and the drawing on the
  debug canvas change nothing in the engine.
\<close>

definition processFrame :: "cvlib \<Rightarrow> int \<Rightarrow> video \<Rightarrow> engine \<Rightarrow> result \<times> call list \<times> engine" where
  "processFrame cv now v s =
     (let res = defaultResult s
      in if \<not> initialized s then (res, [], s)
         else
           let s1 = logTick now s
           in if videoWidth v = 0 \<or> videoHeight v = 0 then (res, [], s1)
              else
                (case prepare cv v s1 of
                   Thrown e s4 \<Rightarrow> finish res [] s4
                 | Done s4 \<Rightarrow>
                     (case refreshStage cv s4 of
                        Inl e \<Rightarrow> finish res [] s4
                      | Inr (cs1, s5) \<Rightarrow>
                          (case trackStage cv res s5 of
                             Inl e \<Rightarrow> finish res cs1 s5
                           | Inr (r, cs2, s6) \<Rightarrow>
                               finish r (cs1 @ cs2 @ [CallDrawDebug])
                                 (s6\<lparr>prevGrayFrame := grayFrame s6\<rparr>)))))"

section \<open>Lifecycle\<close>

text \<open>\<^verbatim>\<open>reset\<close>\<close>

definition reset :: "engine \<Rightarrow> engine" where
  "reset s =
     (let s1 = s\<lparr>isTracking := False, trackedPoints := [], goodFeatures := [],
                 currentPose := None, groundPlane := None, planeConfidence := Fin 0,
                 frameCount := 0\<rparr>;
          s2 = (case prevPoints s1 of
                  None \<Rightarrow> s1
                | Some pp \<Rightarrow> if rows pp > 0 then s1\<lparr>prevPoints := Some newMat\<rparr> else s1)
      in case prevGrayFrame s2 of
           None \<Rightarrow> s2
         | Some pg \<Rightarrow> if rows pg > 0 then s2\<lparr>prevGrayFrame := Some newMat\<rparr> else s2)"

text \<open>\<^verbatim>\<open>init\<close>, given whether \<^verbatim>\<open>cv\<close> is defined.\<close>

definition init :: "bool \<Rightarrow> engine \<Rightarrow> error + engine" where
  "init cvDefined s =
     (if \<not> cvDefined then Inl CvError
      else Inr (s\<lparr>grayFrame := Some newMat, prevGrayFrame := Some newMat,
                  prevPoints := Some newMat, nextPoints := Some newMat,
                  status := Some newMat, err := Some newMat, initialized := True\<rparr>))"

text \<open>
  The \<^verbatim>\<open>deviceorientation\<close> listener of \<^verbatim>\<open>bindIMU\<close>: \<^verbatim>\<open>event.alpha || 0\<close> is 0 when
  the angle is null, NaN or 0.
\<close>

fun orZero :: "jsnum option \<Rightarrow> jsnum" where
  "orZero None = Fin 0"
| "orZero (Some NaN) = Fin 0"
| "orZero (Some a) = a"

definition deviceOrientation :: "jsnum option \<Rightarrow> jsnum option \<Rightarrow> jsnum option \<Rightarrow> engine \<Rightarrow> engine" where
  "deviceOrientation a b g s =
     s\<lparr>imuData := \<lparr>alpha = orZero a, beta = orZero b, gamma = orZero g\<rparr>\<rparr>"

text \<open>\<^verbatim>\<open>updateSettings\<close>: \<^verbatim>\<open>Object.assign\<close> of the keys given, in their order.\<close>

datatype setting = MaxCorners nat | QualityLevel real | MinDistance nat | BlockSize nat
  | WinSize nat | MaxLevel nat | MinFeatures nat | FeatureRefreshInterval nat

fun assign :: "settings \<Rightarrow> setting \<Rightarrow> settings" where
  "assign t (MaxCorners n) = t\<lparr>maxCorners := n\<rparr>"
| "assign t (QualityLevel q) = t\<lparr>qualityLevel := q\<rparr>"
| "assign t (MinDistance n) = t\<lparr>minDistance := n\<rparr>"
| "assign t (BlockSize n) = t\<lparr>blockSize := n\<rparr>"
| "assign t (WinSize n) = t\<lparr>winSize := n\<rparr>"
| "assign t (MaxLevel n) = t\<lparr>maxLevel := n\<rparr>"
| "assign t (MinFeatures n) = t\<lparr>minFeatures := n\<rparr>"
| "assign t (FeatureRefreshInterval n) = t\<lparr>featureRefreshInterval := n\<rparr>"

definition updateSettings :: "setting list \<Rightarrow> engine \<Rightarrow> engine" where
  "updateSettings kvs s = s\<lparr>settings := foldl assign (settings s) kvs\<rparr>"

text \<open>What a caller can do with an engine, and a run of such operations.\<close>

datatype operation = Init bool | ProcessFrame int video | Reset
  | UpdateSettings "setting list"
  | DeviceOrientation "jsnum option" "jsnum option" "jsnum option"

fun apply_operation :: "cvlib \<Rightarrow> engine \<Rightarrow> operation \<Rightarrow> engine" where
  "apply_operation cv s (Init b) = (case init b s of Inl e \<Rightarrow> s | Inr s' \<Rightarrow> s')"
| "apply_operation cv s (ProcessFrame now v) = snd (snd (processFrame cv now v s))"
| "apply_operation cv s Reset = reset s"
| "apply_operation cv s (UpdateSettings kvs) = updateSettings kvs s"
| "apply_operation cv s (DeviceOrientation a b g) = deviceOrientation a b g s"

definition run :: "cvlib \<Rightarrow> operation list \<Rightarrow> engine \<Rightarrow> engine" where
  "run cv ops s = foldl (apply_operation cv) s ops"

section \<open>Notions of the specification\<close>

text \<open>The confidence is a number of the closed interval from 0 to 1.\<close>

definition inUnit :: "jsnum \<Rightarrow> bool" where
  "inUnit c = (case c of Fin r \<Rightarrow> 0 \<le> r \<and> r \<le> 1 | _ \<Rightarrow> False)"

fun isFinite :: "jsnum \<Rightarrow> bool" where
  "isFinite (Fin a) = True"
| "isFinite _ = False"

fun realOf :: "jsnum \<Rightarrow> real" where
  "realOf (Fin a) = a"
| "realOf _ = 0"

definition finitePoint :: "point \<Rightarrow> bool" where
  "finitePoint p = (isFinite (pt_x p) \<and> isFinite (pt_y p))"

text \<open>Point \<open>i\<close> of a point matrix.\<close>

definition pointAt :: "mat \<Rightarrow> nat \<Rightarrow> point" where
  "pointAt m i = \<lparr>pt_x = at32F m (i * 2), pt_y = at32F m (i * 2 + 1)\<rparr>"

text \<open>The Euclidean distance between two finite points, as a real number.\<close>

definition displacement :: "point \<Rightarrow> point \<Rightarrow> real" where
  "displacement p q =
     sqrt ((realOf (pt_x q) - realOf (pt_x p))\<^sup>2 + (realOf (pt_y q) - realOf (pt_y p))\<^sup>2)"

text \<open>
  The same distance as double arithmetic computes it: the differences, their squares,
  the sum and the square root are each rounded.
\<close>

definition computedDisplacement :: "point \<Rightarrow> point \<Rightarrow> jsnum" where
  "computedDisplacement p q =
     (let dx = jsub (pt_x q) (pt_x p); dy = jsub (pt_y q) (pt_y p)
      in jsqrt (jadd (jmul dx dx) (jmul dy dy)))"

text \<open>
  The filtering policy in the words of the specification, on the displacement that is
  computed: point \<open>i\<close> is retained when its validity flag is set, its previous and current
  coordinates are finite and its computed displacement is below the outlier bound of 50
  pixels.
\<close>

definition spec_retained :: "mat \<Rightarrow> mat \<Rightarrow> mat \<Rightarrow> nat \<Rightarrow> bool" where
  "spec_retained st pp np i =
     (atData st i = Some 1 \<and> finitePoint (pointAt pp i) \<and> finitePoint (pointAt np i) \<and>
      jlt (computedDisplacement (pointAt pp i) (pointAt np i)) (Fin 50))"

text \<open>The sum of a list of numbers from left to right, and their mean.\<close>

definition fsum :: "jsnum list \<Rightarrow> jsnum" where
  "fsum xs = foldl jadd (Fin 0) xs"

definition fmean :: "jsnum list \<Rightarrow> jsnum" where
  "fmean xs = jdiv (fsum xs) (jlen xs)"

text \<open>The centroid in the words of the specification: the mean of the feature positions.\<close>

definition spec_centroid :: "point list \<Rightarrow> point" where
  "spec_centroid fs = \<lparr>pt_x = fmean (map pt_x fs), pt_y = fmean (map pt_y fs)\<rparr>"

text \<open>
  The mean displacement in the words of the specification: the mean, over the
  correspondences, of the vector from the previous to the current position.
\<close>

definition spec_meanDisplacement :: "correspondence list \<Rightarrow> motion" where
  "spec_meanDisplacement tps =
     \<lparr>m_dx = fmean (map (\<lambda>c. jsub (pt_x (curr c)) (pt_x (prev c))) tps),
      m_dy = fmean (map (\<lambda>c. jsub (pt_y (curr c)) (pt_y (prev c))) tps)\<rparr>"

text \<open>
  The displacement variance in the words of the specification: the mean, over the
  correspondences, of the squared distance of the displacement from the mean
  displacement.
\<close>

definition spec_deviation :: "motion \<Rightarrow> correspondence \<Rightarrow> jsnum" where
  "spec_deviation m c =
     (let ex = jsub (jsub (pt_x (curr c)) (pt_x (prev c))) (m_dx m);
          ey = jsub (jsub (pt_y (curr c)) (pt_y (prev c))) (m_dy m)
      in jadd (jmul ex ex) (jmul ey ey))"

definition spec_variance :: "correspondence list \<Rightarrow> jsnum" where
  "spec_variance tps = fmean (map (spec_deviation (spec_meanDisplacement tps)) tps)"

text \<open>
  What \<^verbatim>\<open>trackPoints\<close> and \<^verbatim>\<open>reset\<close> keep true of the two arrays they assign together:
  the features are the current positions of the correspondences, and all are finite.
\<close>

definition featuresOk :: "engine \<Rightarrow> bool" where
  "featuresOk s =
     (goodFeatures s = map curr (trackedPoints s) \<and> list_all finitePoint (goodFeatures s))"

fun outcomeEngine :: "outcome \<Rightarrow> engine" where
  "outcomeEngine (Done s) = s"
| "outcomeEngine (Thrown e s) = s"

section \<open>Example inputs\<close>

text \<open>A video of one pixel, and a video that has no dimensions yet.\<close>

definition exampleVideo :: video where
  "exampleVideo = \<lparr>videoWidth = 1, videoHeight = 1, pixels = [10, 20, 30, 255]\<rparr>"

definition emptyVideo :: video where
  "emptyVideo = \<lparr>videoWidth = 0, videoHeight = 0, pixels = []\<rparr>"

text \<open>Five corners, as a detector may return them.\<close>

definition fiveCorners :: mat where
  "fiveCorners = matFromArray 5 1
     [Fin 1, Fin 1, Fin 2, Fin 7, Fin 3, Fin 4, Fin 8, Fin 2, Fin 5, Fin 9]"

text \<open>
  Four points and an answer of the optical flow for them: the first moves by 5 pixels,
  the second by 60, the third is lost to NaN and the fourth has its flag cleared.
\<close>

definition fourPoints :: mat where
  "fourPoints = matFromArray 4 1
     [Fin 1, Fin 1, Fin 10, Fin 0, Fin 5, Fin 5, Fin 6, Fin 6]"

definition fourNext :: mat where
  "fourNext = matFromArray 4 1
     [Fin 4, Fin 5, Fin 70, Fin 0, Fin 5, NaN, Fin 6, Fin 7]"

definition fourStatus :: mat where
  "fourStatus = \<lparr>rows = 4, cols = 1, data = [1, 1, 1, 0], data32F = []\<rparr>"

text \<open>A stand-in for the vision primitives with these answers.\<close>

definition exampleCv :: cvlib where
  "exampleCv =
     \<lparr>cvtColor = (\<lambda>fr. Inr \<lparr>rows = rows fr, cols = cols fr,
                              data = replicate (rows fr * cols fr) 0, data32F = []\<rparr>),
      goodFeaturesToTrack = (\<lambda>g mc q md bs. Inr fiveCorners),
      calcOpticalFlowPyrLK = (\<lambda>pg g pp w l. Inr (fourNext, fourStatus, newMat))\<rparr>"

definition grayPixel :: mat where
  "grayPixel = \<lparr>rows = 1, cols = 1, data = [0], data32F = []\<rparr>"

text \<open>The engine after the constructor and a successful \<^verbatim>\<open>init\<close>.\<close>

definition initialEngine :: engine where
  "initialEngine = newEngine\<lparr>grayFrame := Some newMat, prevGrayFrame := Some newMat,
     prevPoints := Some newMat, nextPoints := Some newMat, status := Some newMat,
     err := Some newMat, initialized := True\<rparr>"

text \<open>An engine that has seen a frame and follows five points.\<close>

definition fivePointEngine :: engine where
  "fivePointEngine = initialEngine\<lparr>grayFrame := Some grayPixel,
     prevGrayFrame := Some grayPixel, prevPoints := Some fiveCorners, frameCount := 1\<rparr>"

text \<open>An engine about to track four points.\<close>

definition fourPointEngine :: engine where
  "fourPointEngine = initialEngine\<lparr>grayFrame := Some grayPixel,
     prevGrayFrame := Some grayPixel, prevPoints := Some fourPoints, frameCount := 1\<rparr>"

text \<open>Eight correspondences that all move by one pixel to the right.\<close>

definition movedRight :: "real \<Rightarrow> real \<Rightarrow> correspondence" where
  "movedRight a b = \<lparr>prev = \<lparr>pt_x = Fin a, pt_y = Fin b\<rparr>,
                      curr = \<lparr>pt_x = Fin (a + 1), pt_y = Fin b\<rparr>\<rparr>"



text \<open>
  Fifteen points in a row, and the same points one pixel to the right, as the optical
  flow may find them.
\<close>

definition fifteenPoints :: mat where
  "fifteenPoints = matFromArray 15 1
     [Fin 0, Fin 0, Fin 1, Fin 0, Fin 2, Fin 0, Fin 3, Fin 0, Fin 4, Fin 0,
      Fin 5, Fin 0, Fin 6, Fin 0, Fin 7, Fin 0, Fin 8, Fin 0, Fin 9, Fin 0,
      Fin 10, Fin 0, Fin 11, Fin 0, Fin 12, Fin 0, Fin 13, Fin 0, Fin 14, Fin 0]"

definition fifteenNext :: mat where
  "fifteenNext = matFromArray 15 1
     [Fin 1, Fin 0, Fin 2, Fin 0, Fin 3, Fin 0, Fin 4, Fin 0, Fin 5, Fin 0,
      Fin 6, Fin 0, Fin 7, Fin 0, Fin 8, Fin 0, Fin 9, Fin 0, Fin 10, Fin 0,
      Fin 11, Fin 0, Fin 12, Fin 0, Fin 13, Fin 0, Fin 14, Fin 0, Fin 15, Fin 0]"

text \<open>Status matrices that flag all fifteen points, the first eight, and the first three.\<close>

definition statusFifteen :: mat where
  "statusFifteen = \<lparr>rows = 15, cols = 1,
     data = [1, 1, 1, 1, 1, 1, 1, 1, 1, 1, 1, 1, 1, 1, 1], data32F = []\<rparr>"

definition statusEight :: mat where
  "statusEight = \<lparr>rows = 15, cols = 1,
     data = [1, 1, 1, 1, 1, 1, 1, 1, 0, 0, 0, 0, 0, 0, 0], data32F = []\<rparr>"

definition statusThree :: mat where
  "statusThree = \<lparr>rows = 15, cols = 1,
     data = [1, 1, 1, 0, 0, 0, 0, 0, 0, 0, 0, 0, 0, 0, 0], data32F = []\<rparr>"

text \<open>A stand-in for the vision primitives whose optical flow answers with a given status.\<close>

definition flowCv :: "mat \<Rightarrow> cvlib" where
  "flowCv st =
     \<lparr>cvtColor = (\<lambda>fr. Inr \<lparr>rows = rows fr, cols = cols fr,
                              data = replicate (rows fr * cols fr) 0, data32F = []\<rparr>),
      goodFeaturesToTrack = (\<lambda>g mc q md bs. Inr fiveCorners),
      calcOpticalFlowPyrLK = (\<lambda>pg g pp w l. Inr (fifteenNext, st, newMat))\<rparr>"

text \<open>
  An engine that has seen a frame and follows the fifteen points, at confidence 0, and
  the same engine at confidence 1.
\<close>

definition fifteenPointEngine :: engine where
  "fifteenPointEngine = initialEngine\<lparr>grayFrame := Some grayPixel,
     prevGrayFrame := Some grayPixel, prevPoints := Some fifteenPoints, frameCount := 1\<rparr>"

definition confidentEngine :: engine where
  "confidentEngine = fifteenPointEngine\<lparr>planeConfidence := Fin 1\<rparr>"

text \<open>The confident engine after \<^verbatim>\<open>updateSettings({minFeatures: 3})\<close>.\<close>

definition lenientEngine :: engine where
  "lenientEngine = confidentEngine\<lparr>settings := (settings confidentEngine)\<lparr>minFeatures := 3\<rparr>\<rparr>"

text \<open>
  One point, in 32-bit floats, that the optical flow moves by a little more than 50
  pixels, with an engine about to track it.
\<close>

definition nearFiftyPrev :: mat where
  "nearFiftyPrev = matFromArray 1 1 [Fin (- (1048575 / 2 ^ 68)), Fin (3355 / 2 ^ 43)]"

definition nearFiftyNext :: mat where
  "nearFiftyNext = matFromArray 1 1 [Fin (13107199 / 2 ^ 18), Fin (5 / 256)]"

definition statusOne :: mat where
  "statusOne = \<lparr>rows = 1, cols = 1, data = [1], data32F = []\<rparr>"

definition nearFiftyCv :: cvlib where
  "nearFiftyCv = (flowCv statusOne)\<lparr>calcOpticalFlowPyrLK :=
     (\<lambda>pg g pp w l. Inr (nearFiftyNext, statusOne, newMat))\<rparr>"

definition nearFiftyEngine :: engine where
  "nearFiftyEngine = initialEngine\<lparr>grayFrame := Some grayPixel,
     prevGrayFrame := Some grayPixel, prevPoints := Some nearFiftyPrev, frameCount := 1\<rparr>"

section \<open>Rounding to the nearest double\<close>

lemma pow2_powr: "pow2 e = 2 powr (of_int e)"
  by (simp add: pow2_def powr_real_of_int inverse_eq_divide)

lemma pow2_pos [simp]: "0 < pow2 e"
  by (simp add: pow2_powr)

lemma pow2_nonneg [simp]: "0 \<le> pow2 e"
  using pow2_pos [of e] by linarith

lemma pow2_ne0 [simp]: "pow2 e \<noteq> 0"
  using pow2_pos [of e] by linarith

lemma pow2_not_le0 [simp]: "\<not> pow2 e \<le> 0"
  using pow2_pos [of e] by linarith

lemma pow2_53: "pow2 53 = 2 ^ 53"
  by (simp add: pow2_def)

lemma pow2_52: "pow2 52 = 2 ^ 52"
  by (simp add: pow2_def)

lemma pow2_add: "pow2 (a + b) = pow2 a * pow2 b"
  by (simp add: pow2_powr powr_add)

lemma pow2_le_iff [simp]: "pow2 a \<le> pow2 b \<longleftrightarrow> a \<le> b"
  by (simp add: pow2_powr)

lemma pow2_less_iff [simp]: "pow2 a < pow2 b \<longleftrightarrow> a < b"
  by (simp add: pow2_powr)

lemma pow2_nat: "0 \<le> e \<Longrightarrow> pow2 e = of_int (2 ^ nat e)"
  by (simp add: pow2_def)

lemma pow2_diff: "pow2 a / pow2 b = pow2 (a - b)"
proof -
  have "pow2 a = pow2 (a - b) * pow2 b"
    using pow2_add [of "a - b" b] by simp
  moreover have "pow2 b \<noteq> 0"
    using pow2_pos [of b] by linarith
  ultimately show ?thesis by simp
qed

lemma roundEven_cases:
  "(\<bar>r - of_int (roundEven r)\<bar> < 1 / 2) \<or>
   (\<bar>r - of_int (roundEven r)\<bar> = 1 / 2 \<and> even (roundEven r))"
proof -
  let ?f = "\<lfloor>r\<rfloor>"
  have d: "0 \<le> r - of_int ?f" "r - of_int ?f < 1" by linarith+
  consider (lo) "r - of_int ?f < 1 / 2" | (hi) "1 / 2 < r - of_int ?f"
    | (ev) "r - of_int ?f = 1 / 2" "even ?f" | (od) "r - of_int ?f = 1 / 2" "odd ?f"
    by fastforce
  then show ?thesis
  proof cases
    case lo
    then have "roundEven r = ?f" by (simp add: roundEven_def)
    with lo d show ?thesis by simp
  next
    case hi
    then have "roundEven r = ?f + 1" by (simp add: roundEven_def)
    with hi d show ?thesis by simp
  next
    case ev
    then have "roundEven r = ?f" by (simp add: roundEven_def)
    with ev show ?thesis by simp
  next
    case od
    then have "roundEven r = ?f + 1" by (simp add: roundEven_def)
    with od show ?thesis by simp
  qed
qed

lemma roundEven_unique:
  assumes "(\<bar>r - of_int n\<bar> < 1 / 2) \<or> (\<bar>r - of_int n\<bar> = 1 / 2 \<and> even n)"
  shows "roundEven r = n"
proof -
  let ?m = "roundEven r"
  from roundEven_cases [of r]
  have m: "(\<bar>r - of_int ?m\<bar> < 1 / 2) \<or> (\<bar>r - of_int ?m\<bar> = 1 / 2 \<and> even ?m)" .
  have "\<bar>real_of_int ?m - of_int n\<bar> \<le> \<bar>r - of_int ?m\<bar> + \<bar>r - of_int n\<bar>" by linarith
  show ?thesis
  proof (rule ccontr)
    assume ne: "?m \<noteq> n"
    then have "1 \<le> \<bar>?m - n\<bar>" by linarith
    then have d: "1 \<le> \<bar>real_of_int ?m - of_int n\<bar>" by linarith
    with m assms have h: "\<bar>r - of_int ?m\<bar> = 1 / 2" "\<bar>r - of_int n\<bar> = 1 / 2" "even ?m" "even n"
      by linarith+
    then have "\<bar>real_of_int ?m - of_int n\<bar> \<le> 1" by linarith
    with d have "\<bar>real_of_int ?m - of_int n\<bar> = 1" by linarith
    then have "\<bar>?m - n\<bar> = 1" by linarith
    with h(3,4) show False by presburger
  qed
qed

lemma roundEven_of_int [simp]: "roundEven (of_int n) = n"
  by (rule roundEven_unique) simp

lemma roundEven_zero [simp]: "roundEven 0 = 0"
  using roundEven_of_int [of 0] by simp

lemma roundEven_neg: "roundEven (- r) = - roundEven r"
proof (rule roundEven_unique)
  from roundEven_cases [of r]
  show "\<bar>- r - real_of_int (- roundEven r)\<bar> < 1 / 2 \<or>
    \<bar>- r - real_of_int (- roundEven r)\<bar> = 1 / 2 \<and> even (- roundEven r)"
    by (auto simp: abs_if)
qed

lemma roundEven_mono:
  assumes "r \<le> s"
  shows "roundEven r \<le> roundEven s"
proof (rule ccontr)
  assume "\<not> roundEven r \<le> roundEven s"
  then have lt: "roundEven s + 1 \<le> roundEven r" by simp
  then have lt': "real_of_int (roundEven s) + 1 \<le> of_int (roundEven r)" by linarith
  from roundEven_cases [of r] have a: "\<bar>r - of_int (roundEven r)\<bar> \<le> 1 / 2" by linarith
  from roundEven_cases [of s] have b: "\<bar>s - of_int (roundEven s)\<bar> \<le> 1 / 2" by linarith
  from a b lt' assms have e: "of_int (roundEven r) = real_of_int (roundEven s) + 1"
    "r = of_int (roundEven r) - 1 / 2" "s = of_int (roundEven s) + 1 / 2"
    by linarith+
  then have "roundEven r = roundEven s + 1" by linarith
  moreover from e roundEven_cases [of r] have "even (roundEven r)" by auto
  moreover from e roundEven_cases [of s] have "even (roundEven s)" by auto
  ultimately show False by presburger
qed


lemma floorlog_eq:
  assumes "x \<noteq> 0" and "pow2 k \<le> \<bar>x\<bar>" and "\<bar>x\<bar> < pow2 (k + 1)"
  shows "\<lfloor>log 2 \<bar>x\<bar>\<rfloor> = k"
proof -
  have "0 < \<bar>x\<bar>" using assms(1) by simp
  moreover have "2 powr (of_int k) \<le> \<bar>x\<bar>" "\<bar>x\<bar> < 2 powr (of_int k + 1)"
    using assms(2,3) by (simp_all add: pow2_powr)
  ultimately show ?thesis
    using floor_log_eq_powr_iff [of "\<bar>x\<bar>" 2 k] by simp
qed

lemma floorlog_bounds:
  assumes "x \<noteq> 0"
  shows "pow2 \<lfloor>log 2 \<bar>x\<bar>\<rfloor> \<le> \<bar>x\<bar>" and "\<bar>x\<bar> < pow2 (\<lfloor>log 2 \<bar>x\<bar>\<rfloor> + 1)"
proof -
  have "0 < \<bar>x\<bar>" using assms by simp
  then have "2 powr (of_int \<lfloor>log 2 \<bar>x\<bar>\<rfloor>) \<le> \<bar>x\<bar> \<and> \<bar>x\<bar> < 2 powr (of_int \<lfloor>log 2 \<bar>x\<bar>\<rfloor> + 1)"
    using floor_log_eq_powr_iff [of "\<bar>x\<bar>" 2 "\<lfloor>log 2 \<bar>x\<bar>\<rfloor>"] by simp
  then show "pow2 \<lfloor>log 2 \<bar>x\<bar>\<rfloor> \<le> \<bar>x\<bar>" and "\<bar>x\<bar> < pow2 (\<lfloor>log 2 \<bar>x\<bar>\<rfloor> + 1)"
    by (simp_all add: pow2_powr)
qed

lemma ulpExp_normal:
  assumes "pow2 k \<le> \<bar>x\<bar>" and "\<bar>x\<bar> < pow2 (k + 1)" and "- 1022 \<le> k"
  shows "ulpExp x = k - 52"
proof -
  from assms(1) pow2_pos [of k] have "x \<noteq> 0" by auto
  from floorlog_eq [OF this assms(1,2)] assms(3) show ?thesis
    by (simp add: ulpExp_def)
qed

lemma ulpExp_subnormal:
  assumes "x \<noteq> 0" and "\<bar>x\<bar> < pow2 (- 1022)"
  shows "ulpExp x = - 1074"
proof -
  from floorlog_bounds(1) [OF assms(1)] assms(2)
  have "pow2 \<lfloor>log 2 \<bar>x\<bar>\<rfloor> < pow2 (- 1022)" by linarith
  then have "\<lfloor>log 2 \<bar>x\<bar>\<rfloor> < - 1022" by simp
  then show ?thesis by (simp add: ulpExp_def)
qed

lemma ulpExp_minus [simp]: "ulpExp (- x) = ulpExp x"
  by (simp add: ulpExp_def)

lemma ulpExp_ge: "- 1074 \<le> ulpExp x"
  by (simp add: ulpExp_def)

lemma abs_less_ulp: "\<bar>x\<bar> < pow2 (ulpExp x + 53)"
proof (cases "x = 0")
  case True
  then show ?thesis by simp
next
  case False
  have "\<lfloor>log 2 \<bar>x\<bar>\<rfloor> + 1 \<le> ulpExp x + 53" by (simp add: ulpExp_def)
  then have "pow2 (\<lfloor>log 2 \<bar>x\<bar>\<rfloor> + 1) \<le> pow2 (ulpExp x + 53)" by simp
  with floorlog_bounds(2) [OF False] show ?thesis by linarith
qed

lemma ulpExp_mono:
  assumes "0 < x" and "x \<le> y"
  shows "ulpExp x \<le> ulpExp y"
proof -
  have "log 2 x \<le> log 2 y" using assms by simp
  then have "\<lfloor>log 2 x\<rfloor> \<le> \<lfloor>log 2 y\<rfloor>" by (rule floor_mono)
  with assms show ?thesis by (simp add: ulpExp_def)
qed

lemma rd_zero [simp]: "rd 0 = 0"
  by (simp add: rd_def)

lemma rd_minus: "rd (- x) = - rd x"
  by (simp add: rd_def roundEven_neg)

lemma rd_nonneg: "0 \<le> x \<Longrightarrow> 0 \<le> rd x"
proof -
  assume "0 \<le> x"
  then have "0 \<le> x / pow2 (ulpExp x)" by simp
  then have "roundEven 0 \<le> roundEven (x / pow2 (ulpExp x))" by (rule roundEven_mono)
  then have "0 \<le> roundEven (x / pow2 (ulpExp x))"
    using roundEven_of_int [of 0] by simp
  then show ?thesis by (simp add: rd_def)
qed

lemma rd_nonpos: "x \<le> 0 \<Longrightarrow> rd x \<le> 0"
  using rd_nonneg [of "- x"] by (simp add: rd_minus)

lemma rd_upper:
  assumes "0 \<le> x"
  shows "rd x \<le> pow2 (ulpExp x + 53)"
proof -
  let ?u = "ulpExp x"
  have "x < pow2 (?u + 53)" using abs_less_ulp [of x] assms by simp
  then have "x / pow2 ?u < pow2 (?u + 53) / pow2 ?u"
    by (simp add: divide_strict_right_mono)
  moreover have "pow2 (?u + 53) / pow2 ?u = 2 ^ 53"
    by (simp add: pow2_diff pow2_53)
  ultimately have "x / pow2 ?u \<le> of_int (2 ^ 53)"
    by simp
  then have "roundEven (x / pow2 ?u) \<le> roundEven (of_int (2 ^ 53))" by (rule roundEven_mono)
  then have "roundEven (x / pow2 ?u) \<le> 2 ^ 53" by (simp only: roundEven_of_int)
  then have "real_of_int (roundEven (x / pow2 ?u)) \<le> 2 ^ 53" by simp
  then have "real_of_int (roundEven (x / pow2 ?u)) * pow2 ?u \<le> 2 ^ 53 * pow2 ?u"
    by (rule mult_right_mono) (rule pow2_nonneg)
  also have "2 ^ 53 * pow2 ?u = pow2 (?u + 53)"
    by (simp add: pow2_add pow2_53)
  finally show ?thesis by (simp only: rd_def)
qed

lemma rd_lower:
  assumes "pow2 k \<le> x" and "ulpExp x = k - 52"
  shows "pow2 k \<le> rd x"
proof -
  let ?u = "ulpExp x"
  have "pow2 k / pow2 ?u \<le> x / pow2 ?u"
    using assms(1) by (simp add: divide_right_mono)
  moreover have "pow2 k / pow2 ?u = 2 ^ 52"
    by (simp add: pow2_diff assms(2) pow2_52)
  ultimately have "of_int (2 ^ 52) \<le> x / pow2 ?u"
    by simp
  then have "roundEven (of_int (2 ^ 52)) \<le> roundEven (x / pow2 ?u)" by (rule roundEven_mono)
  then have "2 ^ 52 \<le> roundEven (x / pow2 ?u)" by (simp only: roundEven_of_int)
  then have "2 ^ 52 \<le> real_of_int (roundEven (x / pow2 ?u))" by simp
  then have "2 ^ 52 * pow2 ?u \<le> real_of_int (roundEven (x / pow2 ?u)) * pow2 ?u"
    by (rule mult_right_mono) (rule pow2_nonneg)
  moreover have "2 ^ 52 * pow2 ?u = pow2 k"
    using pow2_add [of 52 "k - 52"] by (simp add: assms(2) pow2_52)
  ultimately have "pow2 k \<le> real_of_int (roundEven (x / pow2 ?u)) * pow2 ?u"
    by (simp only:)
  then show ?thesis by (simp only: rd_def)
qed

lemma rd_mono_pos:
  assumes "0 \<le> x" and "x \<le> y"
  shows "rd x \<le> rd y"
proof (cases "x = 0")
  case True
  with assms rd_nonneg [of y] show ?thesis by simp
next
  case False
  with assms have x: "0 < x" and y: "0 < y" by simp_all
  from ulpExp_mono [OF x assms(2)] have le: "ulpExp x \<le> ulpExp y" .
  show ?thesis
  proof (cases "ulpExp x = ulpExp y")
    case True
    have "x / pow2 (ulpExp y) \<le> y / pow2 (ulpExp y)"
      using assms(2) by (simp add: divide_right_mono)
    then have "roundEven (x / pow2 (ulpExp y)) \<le> roundEven (y / pow2 (ulpExp y))"
      by (rule roundEven_mono)
    then have "real_of_int (roundEven (x / pow2 (ulpExp y))) * pow2 (ulpExp y) \<le>
       real_of_int (roundEven (y / pow2 (ulpExp y))) * pow2 (ulpExp y)"
      by (simp add: mult_right_mono)
    then show ?thesis by (simp add: rd_def True)
  next
    case False
    with le have lt: "ulpExp x < ulpExp y" by simp
    let ?k = "\<lfloor>log 2 \<bar>y\<bar>\<rfloor>"
    from lt ulpExp_ge [of x] have "- 1074 < ulpExp y" by linarith
    then have k: "ulpExp y = ?k - 52"
      by (simp add: ulpExp_def max_def split: if_splits)
    from y have "y \<noteq> 0" by simp
    from floorlog_bounds(1) [OF this] y have "pow2 ?k \<le> y" by simp
    from rd_lower [OF this k] have a: "pow2 ?k \<le> rd y" .
    from lt k have "ulpExp x + 53 \<le> ?k" by linarith
    then have "pow2 (ulpExp x + 53) \<le> pow2 ?k" by simp
    with rd_upper [OF assms(1)] a show ?thesis by linarith
  qed
qed

lemma rd_mono:
  assumes "x \<le> y"
  shows "rd x \<le> rd y"
proof -
  consider (pos) "0 \<le> x" | (neg) "y \<le> 0" | (mixed) "x \<le> 0" "0 \<le> y"
    by linarith
  then show ?thesis
  proof cases
    case pos
    from pos assms show ?thesis by (rule rd_mono_pos)
  next
    case neg
    with assms have "0 \<le> - y" "- y \<le> - x" by simp_all
    from rd_mono_pos [OF this] show ?thesis by (simp add: rd_minus)
  next
    case mixed
    with rd_nonpos [of x] rd_nonneg [of y] show ?thesis by linarith
  qed
qed

lemma rd_exact:
  assumes "\<bar>m\<bar> < 2 ^ 53" and "- 1074 \<le> e"
  shows "rd (of_int m * pow2 e) = of_int m * pow2 e"
proof (cases "m = 0")
  case True
  then show ?thesis by simp
next
  case False
  let ?x = "real_of_int m * pow2 e"
  let ?u = "ulpExp ?x"
  have x0: "?x \<noteq> 0" using False pow2_pos [of e] by simp
  have "\<bar>?x\<bar> = real_of_int \<bar>m\<bar> * pow2 e"
    using pow2_pos [of e] by (simp add: abs_mult)
  moreover have "real_of_int \<bar>m\<bar> < 2 ^ 53"
    using assms(1) by (metis of_int_less_numeral_power_cancel_iff)
  ultimately have "\<bar>?x\<bar> < 2 ^ 53 * pow2 e"
    using pow2_pos [of e] by (simp add: mult_strict_right_mono)
  also have "2 ^ 53 * pow2 e = pow2 (e + 53)"
    by (simp add: pow2_add pow2_53)
  finally have ub: "\<bar>?x\<bar> < pow2 (e + 53)" .
  from floorlog_bounds(1) [OF x0] ub
  have "pow2 \<lfloor>log 2 \<bar>?x\<bar>\<rfloor> < pow2 (e + 53)" by linarith
  then have "\<lfloor>log 2 \<bar>?x\<bar>\<rfloor> < e + 53" by simp
  with assms(2) have ue: "?u \<le> e" by (simp add: ulpExp_def)
  then have "pow2 (e - ?u) = real_of_int (2 ^ nat (e - ?u))"
    by (simp add: pow2_nat)
  moreover have "?x / pow2 ?u = real_of_int m * (pow2 e / pow2 ?u)"
    by simp
  ultimately have "?x / pow2 ?u = real_of_int (m * 2 ^ nat (e - ?u))"
    by (simp only: pow2_diff of_int_mult)
  then have "roundEven (?x / pow2 ?u) = m * 2 ^ nat (e - ?u)"
    by (simp only: roundEven_of_int)
  then have "rd ?x = real_of_int (m * 2 ^ nat (e - ?u)) * pow2 ?u"
    by (simp add: rd_def)
  also have "\<dots> = real_of_int m * (pow2 (e - ?u) * pow2 ?u)"
    using ue by (simp add: pow2_nat)
  also have "pow2 (e - ?u) * pow2 ?u = pow2 e"
    using pow2_add [of "e - ?u" ?u] by simp
  finally show ?thesis .
qed

lemma rd_of_int: "\<bar>m\<bar> < 2 ^ 53 \<Longrightarrow> rd (of_int m) = of_int m"
  using rd_exact [of m 0] by (simp add: pow2_def)

lemma rd_normal:
  assumes "pow2 k \<le> \<bar>x\<bar>" and "\<bar>x\<bar> < pow2 (k + 1)" and "- 1022 \<le> k"
  shows "rd x = of_int (roundEven (x / pow2 (k - 52))) * pow2 (k - 52)"
  by (simp add: rd_def ulpExp_normal [OF assms])

lemma rd_idem: "rd (rd x) = rd x"
proof -
  let ?r = "roundEven (x / pow2 (ulpExp x))"
  have b: "\<bar>?r\<bar> \<le> 2 ^ 53"
  proof -
    have a: "\<bar>x\<bar> < pow2 (ulpExp x + 53)" by (rule abs_less_ulp)
    have q: "pow2 (ulpExp x + 53) / pow2 (ulpExp x) = 2 ^ 53"
      by (simp add: pow2_diff pow2_53)
    from a have "x < pow2 (ulpExp x + 53)" by linarith
    then have "x / pow2 (ulpExp x) < pow2 (ulpExp x + 53) / pow2 (ulpExp x)"
      by (simp add: divide_strict_right_mono)
    then have u: "x / pow2 (ulpExp x) \<le> of_int (2 ^ 53)"
      unfolding q by simp
    from a have "- x < pow2 (ulpExp x + 53)" by linarith
    then have "(- x) / pow2 (ulpExp x) < pow2 (ulpExp x + 53) / pow2 (ulpExp x)"
      by (rule divide_strict_right_mono) (rule pow2_pos)
    then have "- (x / pow2 (ulpExp x)) \<le> 2 ^ 53"
      unfolding q by simp
    then have l: "of_int (- (2 ^ 53)) \<le> x / pow2 (ulpExp x)"
      by simp
    from u have "roundEven (x / pow2 (ulpExp x)) \<le> roundEven (of_int (2 ^ 53))"
      by (rule roundEven_mono)
    moreover from l have "roundEven (of_int (- (2 ^ 53))) \<le> roundEven (x / pow2 (ulpExp x))"
      by (rule roundEven_mono)
    ultimately have "roundEven (x / pow2 (ulpExp x)) \<le> roundEven (of_int (2 ^ 53))"
      "roundEven (of_int (- (2 ^ 53))) \<le> roundEven (x / pow2 (ulpExp x))" by blast+
    then have "?r \<le> 2 ^ 53" "- (2 ^ 53) \<le> ?r"
      by (simp_all only: roundEven_of_int)
    then show ?thesis by simp
  qed
  show ?thesis
  proof (cases "\<bar>?r\<bar> < 2 ^ 53")
    case True
    from rd_exact [OF True ulpExp_ge [of x]] show ?thesis by (simp only: rd_def)
  next
    case False
    with b have "\<bar>?r\<bar> = 2 ^ 53" by simp
    then consider "?r = 2 ^ 53" | "?r = - (2 ^ 53)" by (auto simp: abs_if split: if_splits)
    then show ?thesis
    proof cases
      case 1
      have "rd x = of_int 1 * pow2 (ulpExp x + 53)"
        by (simp add: rd_def 1 pow2_add pow2_53)
      moreover have "rd (of_int 1 * pow2 (ulpExp x + 53)) = of_int 1 * pow2 (ulpExp x + 53)"
        using ulpExp_ge [of x] by (intro rd_exact) simp_all
      ultimately show ?thesis by simp
    next
      case 2
      have "rd x = of_int (- 1) * pow2 (ulpExp x + 53)"
        by (simp add: rd_def 2 pow2_add pow2_53)
      moreover have "rd (of_int (- 1) * pow2 (ulpExp x + 53)) = of_int (- 1) * pow2 (ulpExp x + 53)"
        using ulpExp_ge [of x] by (intro rd_exact) simp_all
      ultimately show ?thesis by simp
    qed
  qed
qed

lemma rd_le: "x \<le> b \<Longrightarrow> rd b = b \<Longrightarrow> rd x \<le> b"
  using rd_mono [of x b] by simp

lemma rd_ge: "a \<le> x \<Longrightarrow> rd a = a \<Longrightarrow> a \<le> rd x"
  using rd_mono [of a x] by simp

lemma rd_less_imp: "rd x < b \<Longrightarrow> rd b = b \<Longrightarrow> x < b"
  using rd_mono [of b x] by (cases "x < b") simp_all

lemma rd_greater_imp: "a < rd x \<Longrightarrow> rd a = a \<Longrightarrow> a < x"
  using rd_mono [of x a] by (cases "a < x") simp_all

text \<open>The error of a rounding is at most half a unit in the last place.\<close>

lemma rd_error: "\<bar>rd x - x\<bar> \<le> pow2 (ulpExp x) / 2"
proof -
  let ?p = "pow2 (ulpExp x)"
  from roundEven_cases [of "x / ?p"]
  have "\<bar>x / ?p - of_int (roundEven (x / ?p))\<bar> \<le> 1 / 2" by linarith
  then have "\<bar>x / ?p - of_int (roundEven (x / ?p))\<bar> * ?p \<le> 1 / 2 * ?p"
    by (rule mult_right_mono) (rule pow2_nonneg)
  moreover have "\<bar>x / ?p - of_int (roundEven (x / ?p))\<bar> * ?p =
      \<bar>(x / ?p - of_int (roundEven (x / ?p))) * ?p\<bar>"
    by (simp add: abs_mult)
  moreover have "(x / ?p - of_int (roundEven (x / ?p))) * ?p = x - rd x"
    by (simp add: rd_def algebra_simps)
  ultimately have "\<bar>x - rd x\<bar> \<le> 1 / 2 * ?p" by simp
  then show ?thesis by (simp add: abs_minus_commute)
qed

lemma pow2_small_lt_1024: "e < 1024 \<Longrightarrow> pow2 e < pow2 1024"
  by simp

lemma int53_lt_pow2_1024:
  assumes "\<bar>m\<bar> < 2 ^ 53"
  shows "real_of_int m < pow2 1024" and "- pow2 1024 < real_of_int m"
proof -
  have "real_of_int \<bar>m\<bar> < 2 ^ 53"
    using assms by (metis of_int_less_numeral_power_cancel_iff)
  then have "\<bar>real_of_int m\<bar> < pow2 53" by (simp add: pow2_53)
  moreover have "pow2 53 < pow2 1024" by simp
  ultimately have "\<bar>real_of_int m\<bar> < pow2 1024" by linarith
  then show "real_of_int m < pow2 1024" and "- pow2 1024 < real_of_int m"
    by linarith+
qed

lemma roundDouble_Fin:
  "- pow2 1024 < rd x \<Longrightarrow> rd x < pow2 1024 \<Longrightarrow> roundDouble x = Fin (rd x)"
  by (simp add: roundDouble_def)

lemma roundDouble_cases:
  "roundDouble x = PInf \<or> roundDouble x = NInf \<or> roundDouble x = Fin (rd x)"
  by (simp add: roundDouble_def)

lemma roundDouble_nonneg:
  assumes "0 \<le> x"
  shows "roundDouble x = PInf \<or> roundDouble x = Fin (rd x)"
proof -
  have "0 \<le> rd x" using assms by (rule rd_nonneg)
  moreover have "0 < pow2 1024" by simp
  ultimately have "\<not> rd x \<le> - pow2 1024" by linarith
  then show ?thesis by (simp add: roundDouble_def)
qed

lemma roundDouble_between:
  assumes "a \<le> x" and "x \<le> b" and "rd a = a" and "rd b = b"
    and "- pow2 1024 < a" and "b < pow2 1024"
  shows "roundDouble x = Fin (rd x)" and "a \<le> rd x" and "rd x \<le> b"
proof -
  show a: "a \<le> rd x" using assms(1,3) by (rule rd_ge)
  show b: "rd x \<le> b" using assms(2,4) by (rule rd_le)
  from a b assms(5,6) show "roundDouble x = Fin (rd x)"
    by (intro roundDouble_Fin) linarith+
qed

lemma roundDouble_of_int:
  assumes "\<bar>m\<bar> < 2 ^ 53"
  shows "roundDouble (of_int m) = Fin (of_int m)"
  using int53_lt_pow2_1024 [OF assms] rd_of_int [OF assms]
  by (simp add: roundDouble_def)

lemma roundDouble_exact:
  assumes "\<bar>m\<bar> < 2 ^ 53" and "- 1074 \<le> e" and "e \<le> 0"
  shows "roundDouble (of_int m * pow2 e) = Fin (of_int m * pow2 e)"
proof -
  have "pow2 e \<le> 1" using assms(3) pow2_le_iff [of e 0] by (simp add: pow2_def)
  then have "\<bar>real_of_int m * pow2 e\<bar> \<le> \<bar>real_of_int m\<bar>"
    by (simp add: abs_mult mult_left_le)
  with int53_lt_pow2_1024 [OF assms(1)]
  have "- pow2 1024 < real_of_int m * pow2 e" "real_of_int m * pow2 e < pow2 1024"
    by linarith+
  with rd_exact [OF assms(1,2)] show ?thesis
    by (simp add: roundDouble_def)
qed

lemma roundDouble_0: "roundDouble 0 = Fin 0"
  using roundDouble_of_int [of 0] by simp

lemma roundDouble_1: "roundDouble 1 = Fin 1"
  using roundDouble_of_int [of 1] by simp

lemma roundDouble_numeral:
  "(numeral w :: int) < 2 ^ 53 \<Longrightarrow> roundDouble (numeral w) = Fin (numeral w)"
  using roundDouble_of_int [of "numeral w"] by simp

lemma roundDouble_neg_numeral:
  "(numeral w :: int) < 2 ^ 53 \<Longrightarrow> roundDouble (- numeral w) = Fin (- numeral w)"
  using roundDouble_of_int [of "- numeral w"] by simp

lemmas roundDouble_int = roundDouble_0 roundDouble_1 roundDouble_numeral roundDouble_neg_numeral

lemma rd_small_ints: "rd 1 = 1" "rd 2 = 2" "rd (- 1) = - 1" "rd 50 = 50" "rd (- 50) = - 50"
  "rd 2500 = 2500" "rd 100 = 100"
  using rd_of_int [of 1] rd_of_int [of 2] rd_of_int [of "- 1"] rd_of_int [of 50]
    rd_of_int [of "- 50"] rd_of_int [of 2500] rd_of_int [of 100]
  by simp_all

section \<open>Arithmetic of the number model\<close>

lemma jmax_Fin: "jmax (Fin a) (Fin b) = Fin (max a b)"
  by (simp add: jmax_def max_def)

lemma jmin_Fin: "jmin (Fin a) (Fin b) = Fin (min a b)"
  by (simp add: jmin_def min_def)

lemma jsub_Fin: "jsub (Fin a) (Fin b) = roundDouble (a - b)"
  by (simp add: jsub_def)

lemma inUnit_Fin: "inUnit c \<longleftrightarrow> (\<exists>r. c = Fin r \<and> 0 \<le> r \<and> r \<le> 1)"
  by (cases c) (simp_all add: inUnit_def)

text \<open>The literals 0.1 and 0.15 are doubles between 1/16 and 1/4.\<close>

lemma literal_between:
  assumes "1 / 16 \<le> x" and "x \<le> 1 / 4"
  shows "roundDouble x = Fin (rd x)" and "1 / 16 \<le> rd x" and "rd x \<le> 1 / 4"
proof -
  have a: "rd (1 / 16) = 1 / 16" using rd_exact [of 1 "- 4"] by (simp add: pow2_def)
  have b: "rd (1 / 4) = 1 / 4" using rd_exact [of 1 "- 2"] by (simp add: pow2_def)
  have c: "- pow2 1024 < 1 / 16" "(1 / 4 :: real) < pow2 1024"
    using int53_lt_pow2_1024 [of 1] by simp_all
  show "roundDouble x = Fin (rd x)" and "1 / 16 \<le> rd x" and "rd x \<le> 1 / 4"
    using roundDouble_between [OF assms a b c] by simp_all
qed

lemma literal_tenth:
  "decimal 1 1 = Fin (rd (1 / 10))" "1 / 16 \<le> rd (1 / 10)" "rd (1 / 10) \<le> 1 / 4"
  using literal_between [of "1 / 10"] by (simp_all add: decimal_def)

lemma literal_fifteen:
  "decimal 15 2 = Fin (rd (3 / 20))" "1 / 16 \<le> rd (3 / 20)" "rd (3 / 20) \<le> 1 / 4"
  using literal_between [of "3 / 20"] by (simp_all add: decimal_def)


section \<open>The confidence stays between 0 and 1\<close>

lemma rd_error_small:
  assumes "\<bar>x\<bar> < 1"
  shows "\<bar>rd x - x\<bar> \<le> 1 / 16"
proof (cases "x = 0")
  case True
  then show ?thesis by simp
next
  case False
  from floorlog_bounds(1) [OF False] assms have "pow2 \<lfloor>log 2 \<bar>x\<bar>\<rfloor> < pow2 0"
    by (simp add: pow2_def)
  then have "\<lfloor>log 2 \<bar>x\<bar>\<rfloor> < 0" by (simp only: pow2_less_iff)
  then have "ulpExp x \<le> - 53" unfolding ulpExp_def by linarith
  then have "pow2 (ulpExp x) \<le> pow2 (- 53)" by simp
  also have "pow2 (- 53) \<le> 1 / 8" by (simp add: pow2_def)
  finally have "pow2 (ulpExp x) / 2 \<le> 1 / 16" by simp
  with rd_error [of x] show ?thesis by linarith
qed

text \<open>The decrement: 0.1 less, not below 0, and never more than before.\<close>

lemma decrement_value:
  assumes "0 \<le> r" and "r \<le> 1"
  shows "\<exists>y. jmax (Fin 0) (jsub (Fin r) (decimal 1 1)) = Fin y \<and> 0 \<le> y \<and> y \<le> r"
proof -
  let ?d = "rd (1 / 10)"
  note lit = literal_tenth
  have b: "- 1 \<le> r - ?d" "r - ?d \<le> 1" using assms lit(2,3) by linarith+
  have p: "- pow2 1024 < - 1" "(1::real) < pow2 1024"
    using int53_lt_pow2_1024 [of 1] by simp_all
  from roundDouble_between [OF b rd_small_ints(3) rd_small_ints(1) p]
  have f: "roundDouble (r - ?d) = Fin (rd (r - ?d))" by simp
  have "\<bar>r - ?d\<bar> < 1" using assms lit(2,3) by linarith
  from rd_error_small [OF this] lit(2) have "rd (r - ?d) \<le> r" by linarith
  with assms(1) have "0 \<le> max 0 (rd (r - ?d)) \<and> max 0 (rd (r - ?d)) \<le> r" by simp
  moreover have "jmax (Fin 0) (jsub (Fin r) (decimal 1 1)) = Fin (max 0 (rd (r - ?d)))"
    by (simp add: lit(1) jsub_Fin f jmax_Fin)
  ultimately show ?thesis by blast
qed

text \<open>The increment: 0.15 more, not above 1.\<close>

lemma increment_value:
  assumes "0 \<le> r" and "r \<le> 1"
  shows "\<exists>y. jmin (Fin 1) (jadd (Fin r) (decimal 15 2)) = Fin y \<and> 0 \<le> y \<and> y \<le> 1"
proof -
  let ?d = "rd (3 / 20)"
  note lit = literal_fifteen
  have b: "0 \<le> r + ?d" "r + ?d \<le> 2" using assms lit(2,3) by linarith+
  have p: "- pow2 1024 < 0" "(2::real) < pow2 1024"
    using int53_lt_pow2_1024 [of 2] by simp_all
  from roundDouble_between [OF b rd_zero rd_small_ints(2) p]
  have f: "roundDouble (r + ?d) = Fin (rd (r + ?d))" and g: "0 \<le> rd (r + ?d)" by simp_all
  from g have "0 \<le> min 1 (rd (r + ?d)) \<and> min 1 (rd (r + ?d)) \<le> 1" by simp
  moreover have "jmin (Fin 1) (jadd (Fin r) (decimal 15 2)) = Fin (min 1 (rd (r + ?d)))"
    by (simp add: lit(1) f jmin_Fin)
  ultimately show ?thesis by blast
qed

lemma estimatePlane_confidence_cases:
  "planeConfidence (snd (estimatePlane s)) =
     jmax (Fin 0) (jsub (planeConfidence s) (decimal 1 1))
   \<or> planeConfidence (snd (estimatePlane s)) =
     jmin (Fin 1) (jadd (planeConfidence s) (decimal 15 2))"
  by (simp add: estimatePlane_def Let_def)

lemma estimatePlane_inUnit:
  assumes "inUnit (planeConfidence s)"
  shows "inUnit (planeConfidence (snd (estimatePlane s)))"
proof -
  from assms obtain r where r: "planeConfidence s = Fin r" "0 \<le> r" "r \<le> 1"
    by (auto simp: inUnit_Fin)
  from estimatePlane_confidence_cases [of s] show ?thesis
  proof
    assume "planeConfidence (snd (estimatePlane s)) =
      jmax (Fin 0) (jsub (planeConfidence s) (decimal 1 1))"
    with r decrement_value [OF r(2,3)] show ?thesis by (auto simp: inUnit_Fin)
  next
    assume "planeConfidence (snd (estimatePlane s)) =
      jmin (Fin 1) (jadd (planeConfidence s) (decimal 15 2))"
    with r increment_value [OF r(2,3)] show ?thesis by (auto simp: inUnit_Fin)
  qed
qed

lemma detectFeatures_confidence: "planeConfidence (detectFeatures cv s) = planeConfidence s"
  by (simp add: detectFeatures_def split: option.splits sum.splits)

lemma trackPoints_confidence: "planeConfidence (trackPoints cv s) = planeConfidence s"
  by (simp add: trackPoints_def Let_def split: option.splits sum.splits prod.splits)

lemma estimatePose_confidence: "planeConfidence (estimatePose s) = planeConfidence s"
  by (simp add: estimatePose_def Let_def split: option.splits)

lemma prepare_confidence: "planeConfidence (outcomeEngine (prepare cv v s)) = planeConfidence s"
  by (simp add: prepare_def captureFrame_def toGray_def Let_def
      split: option.splits sum.splits outcome.splits)

lemma refreshStage_confidence:
  "refreshStage cv s = Inr (cs, s') \<Longrightarrow> planeConfidence s' = planeConfidence s"
  by (auto simp: refreshStage_def detectFeatures_confidence split: option.splits if_splits)

lemma trackStage_inUnit:
  assumes "trackStage cv res s = Inr (r, cs, s')" and "inUnit (planeConfidence s)"
  shows "inUnit (planeConfidence s')"
proof -
  have tp: "inUnit (planeConfidence (trackPoints cv s))"
    using assms(2) by (simp add: trackPoints_confidence)
  have ep: "inUnit (planeConfidence (snd (estimatePlane (trackPoints cv s))))"
    using tp by (rule estimatePlane_inUnit)
  from assms(1) have "s' = s \<or> s' = trackPoints cv s \<or> s' = snd (estimatePlane (trackPoints cv s))
     \<or> s' = estimatePose (snd (estimatePlane (trackPoints cv s)))"
    by (auto simp: trackStage_def Let_def split: option.splits if_splits prod.splits)
  with assms(2) tp ep show ?thesis
    by (auto simp: estimatePose_confidence)
qed

lemma refreshStage_inUnit:
  "refreshStage cv s = Inr (cs, s') \<Longrightarrow> inUnit (planeConfidence s) \<Longrightarrow> inUnit (planeConfidence s')"
  by (simp add: refreshStage_confidence)

lemma processFrame_inUnit:
  assumes "inUnit (planeConfidence s)"
  shows "inUnit (planeConfidence (snd (snd (processFrame cv now v s))))"
proof -
  have s1: "inUnit (planeConfidence (logTick now s))"
    using assms by (simp add: logTick_def)
  have p: "inUnit (planeConfidence (outcomeEngine (prepare cv v (logTick now s))))"
    using s1 by (simp add: prepare_confidence)
  show ?thesis
  proof (cases "prepare cv v (logTick now s)")
    case (Thrown e s4)
    with assms s1 p show ?thesis
      by (simp add: processFrame_def Let_def finish_def)
  next
    case (Done s4)
    with p have s4: "inUnit (planeConfidence s4)" by simp
    show ?thesis
    proof (cases "refreshStage cv s4")
      case (Inl e)
      with assms s1 s4 Done show ?thesis
        by (simp add: processFrame_def Let_def finish_def)
    next
      case (Inr p5)
      obtain cs1 s5 where p5: "p5 = (cs1, s5)" by (cases p5)
      from Inr p5 s4 have s5: "inUnit (planeConfidence s5)"
        by (auto dest: refreshStage_inUnit)
      show ?thesis
      proof (cases "trackStage cv (defaultResult s) s5")
        case (Inl e)
        with assms s1 s5 Done Inr p5 show ?thesis
          by (simp add: processFrame_def Let_def finish_def)
      next
        case r: (Inr p6)
        obtain r6 cs2 s6 where p6: "p6 = (r6, cs2, s6)" by (cases p6)
        from r p6 s5 have "inUnit (planeConfidence s6)"
          by (auto dest: trackStage_inUnit)
        with assms s1 Done Inr p5 r p6 show ?thesis
          by (simp add: processFrame_def Let_def finish_def)
      qed
    qed
  qed
qed

lemma reset_confidence: "planeConfidence (reset s) = Fin 0"
  by (simp add: reset_def Let_def split: option.splits)

lemma apply_operation_inUnit:
  assumes "inUnit (planeConfidence s)"
  shows "inUnit (planeConfidence (apply_operation cv s op))"
proof (cases op)
  case (Init b)
  with assms show ?thesis by (simp add: init_def)
next
  case (ProcessFrame now v)
  with assms show ?thesis by (simp add: processFrame_inUnit)
next
  case Reset
  then show ?thesis by (simp add: reset_confidence inUnit_def)
next
  case (UpdateSettings kvs)
  with assms show ?thesis by (simp add: updateSettings_def)
next
  case (DeviceOrientation a b g)
  with assms show ?thesis by (simp add: deviceOrientation_def)
qed

lemma run_inUnit:
  "inUnit (planeConfidence s) \<Longrightarrow> inUnit (planeConfidence (run cv ops s))"
  unfolding run_def
  by (induction ops arbitrary: s) (simp_all add: apply_operation_inUnit)

text \<open>
  C1. Whenever the confidence lies between 0 and 1, as it does when the engine is
  constructed, it lies between 0 and 1 after an update by \<^verbatim>\<open>estimatePlane\<close>, and
  after any sequence of operations on the engine, however many frames increment or
  decrement it.
\<close>

theorem confidence_in_unit_interval:
  assumes "inUnit (planeConfidence s)"
  shows "inUnit (planeConfidence (snd (estimatePlane s))) \<and>
         inUnit (planeConfidence (run cv ops s))"
  using assms by (simp add: estimatePlane_inUnit run_inUnit)

theorem confidence_in_unit_interval_witness:
  "inUnit (planeConfidence newEngine) \<and>
   inUnit (planeConfidence (snd (estimatePlane newEngine))) \<and>
   inUnit (planeConfidence
     (run exampleCv [Init True, ProcessFrame 0 exampleVideo, ProcessFrame 40 exampleVideo, Reset]
        newEngine))"
proof -
  have h: "inUnit (planeConfidence newEngine)"
    by (simp add: newEngine_def inUnit_def)
  from h confidence_in_unit_interval [OF h] show ?thesis by (rule conjI)
qed

text \<open>
  C9. \<^verbatim>\<open>reset\<close> is idempotent, and it clears the correspondences, the features, the
  plane, the confidence, the frame counter, the pose and the tracking flag; the point
  matrix and the previous frame, when allocated, are empty after it.
\<close>

theorem reset_idempotent:
  "reset (reset s) = reset s \<and>
   trackedPoints (reset s) = [] \<and> goodFeatures (reset s) = [] \<and>
   groundPlane (reset s) = None \<and> planeConfidence (reset s) = Fin 0 \<and>
   frameCount (reset s) = 0 \<and> currentPose (reset s) = None \<and>
   isTracking (reset s) = False \<and>
   (case prevPoints (reset s) of None \<Rightarrow> prevPoints s = None | Some pp \<Rightarrow> rows pp = 0) \<and>
   (case prevGrayFrame (reset s) of None \<Rightarrow> prevGrayFrame s = None | Some pg \<Rightarrow> rows pg = 0)"
  by (simp add: reset_def Let_def newMat_def split: option.splits)

theorem reset_idempotent_witness:
  "reset (reset fivePointEngine) = reset fivePointEngine \<and>
   prevPoints (reset fivePointEngine) = Some newMat \<and>
   prevPoints fivePointEngine = Some fiveCorners"
proof -
  have "prevPoints (reset fivePointEngine) = Some newMat \<and> prevPoints fivePointEngine = Some fiveCorners"
    by (simp add: reset_def Let_def fivePointEngine_def initialEngine_def newEngine_def
        fiveCorners_def matFromArray_def grayPixel_def)
  with reset_idempotent [of fivePointEngine] show ?thesis by simp
qed

text \<open>
  C10. On an engine that is not initialized \<^verbatim>\<open>processFrame\<close> returns the default
  result, with the orientation sample of the engine, calls nothing and leaves the engine
  as it was.
\<close>

theorem processFrame_not_initialized:
  assumes "\<not> initialized s"
  shows "processFrame cv now v s =
           (\<lparr>r_isTracking = False, r_hasFeatures = False, r_featureCount = 0,
             r_planeCount = 0, r_pose = None, r_imu = imuData s\<rparr>, [], s)"
  using assms by (simp add: processFrame_def defaultResult_def)

theorem processFrame_not_initialized_witness:
  "\<not> initialized newEngine \<and>
   processFrame exampleCv 5000 exampleVideo newEngine =
     (\<lparr>r_isTracking = False, r_hasFeatures = False, r_featureCount = 0,
       r_planeCount = 0, r_pose = None,
       r_imu = \<lparr>alpha = Fin 0, beta = Fin 0, gamma = Fin 0\<rparr>\<rparr>, [], newEngine)"
proof -
  have h: "\<not> initialized newEngine" by (simp add: newEngine_def)
  have i: "imuData newEngine = \<lparr>alpha = Fin 0, beta = Fin 0, gamma = Fin 0\<rparr>"
    by (simp add: newEngine_def)
  from processFrame_not_initialized [OF h, of exampleCv 5000 exampleVideo] h i
  show ?thesis by simp
qed

text \<open>
  C7. For a video of zero width or zero height \<^verbatim>\<open>processFrame\<close> returns at once:
  the flags of the result are false, its counts are 0, nothing is called, and the engine
  is as before in every field but the time of the last periodic log; the frame counter,
  the tracked points, the previous frame, the plane, the confidence and the pose are
  those of before.
\<close>

theorem processFrame_zero_dimensions:
  assumes "videoWidth v = 0 \<or> videoHeight v = 0"
  shows "fst (processFrame cv now v s) =
           \<lparr>r_isTracking = False, r_hasFeatures = False, r_featureCount = 0,
            r_planeCount = 0, r_pose = None, r_imu = imuData s\<rparr> \<and>
         fst (snd (processFrame cv now v s)) = [] \<and>
         snd (snd (processFrame cv now v s)) =
           s\<lparr>lastLogTime := lastLogTime (snd (snd (processFrame cv now v s)))\<rparr> \<and>
         frameCount (snd (snd (processFrame cv now v s))) = frameCount s \<and>
         prevPoints (snd (snd (processFrame cv now v s))) = prevPoints s \<and>
         trackedPoints (snd (snd (processFrame cv now v s))) = trackedPoints s \<and>
         goodFeatures (snd (snd (processFrame cv now v s))) = goodFeatures s \<and>
         prevGrayFrame (snd (snd (processFrame cv now v s))) = prevGrayFrame s \<and>
         groundPlane (snd (snd (processFrame cv now v s))) = groundPlane s \<and>
         planeConfidence (snd (snd (processFrame cv now v s))) = planeConfidence s \<and>
         currentPose (snd (snd (processFrame cv now v s))) = currentPose s \<and>
         isTracking (snd (snd (processFrame cv now v s))) = isTracking s"
  using assms by (auto simp: processFrame_def defaultResult_def logTick_def Let_def)

theorem processFrame_zero_dimensions_witness:
  "(videoWidth emptyVideo = 0 \<or> videoHeight emptyVideo = 0) \<and>
   fst (snd (processFrame exampleCv 5000 emptyVideo fivePointEngine)) = [] \<and>
   frameCount (snd (snd (processFrame exampleCv 5000 emptyVideo fivePointEngine))) = 1 \<and>
   prevPoints (snd (snd (processFrame exampleCv 5000 emptyVideo fivePointEngine))) = Some fiveCorners"
proof -
  have h: "videoWidth emptyVideo = 0 \<or> videoHeight emptyVideo = 0"
    by (simp add: emptyVideo_def)
  have e: "frameCount fivePointEngine = 1 \<and> prevPoints fivePointEngine = Some fiveCorners"
    by (simp add: fivePointEngine_def)
  from processFrame_zero_dimensions [OF h, of exampleCv 5000 fivePointEngine] h e
  show ?thesis by simp
qed




section \<open>The filter of the tracked points\<close>

lemma jsub_isFinite: "isFinite (jsub a b) \<Longrightarrow> isFinite a \<and> isFinite b"
  by (cases a; cases b) (simp_all add: jsub_def)

lemma isFinite_not_NaN: "isFinite a \<Longrightarrow> \<not> isNaN a"
  by (cases a) simp_all

lemma isFinite_realOf: "isFinite a \<Longrightarrow> a = Fin (realOf a)"
  by (cases a) simp_all

lemma roundDouble_Fin_eq: "roundDouble x = Fin r \<Longrightarrow> r = rd x"
  using roundDouble_cases [of x] by auto

lemma roundDouble_not_NaN [simp]: "roundDouble x \<noteq> NaN"
  using roundDouble_cases [of x] by auto

lemma jsub_Fin_eq: "jsub a b = Fin r \<Longrightarrow> r = rd (realOf a - realOf b)"
  by (cases a; cases b) (auto simp: jsub_def dest: roundDouble_Fin_eq)

lemma jmul_self_Fin: "jmul d d = Fin r \<Longrightarrow> isFinite d \<and> r = rd (realOf d * realOf d)"
  by (cases d) (auto simp: jinf_def dest: roundDouble_Fin_eq)

lemma jadd_Fin_eq: "jadd x y = Fin r \<Longrightarrow> isFinite x \<and> isFinite y \<and> r = rd (realOf x + realOf y)"
  by (cases x; cases y) (auto dest: roundDouble_Fin_eq)

lemma jsqrt_Fin_eq: "jsqrt x = Fin r \<Longrightarrow> isFinite x \<and> 0 \<le> realOf x \<and> r = rd (sqrt (realOf x))"
  by (cases x) (auto dest: roundDouble_Fin_eq split: if_splits)

lemma jsqrt_not_NInf: "jsqrt x \<noteq> NInf"
proof (cases x)
  case (Fin a)
  show ?thesis
  proof (cases "a < 0")
    case True
    with Fin show ?thesis by simp
  next
    case False
    then have "0 \<le> sqrt a" by simp
    from roundDouble_nonneg [OF this] Fin False show ?thesis by auto
  qed
qed simp_all

lemma jlt_Fin_cases: "jlt x (Fin c) \<Longrightarrow> x = NInf \<or> (\<exists>r. x = Fin r \<and> r < c)"
  by (cases x) simp_all

text \<open>
  What the test of the loop implies, by the monotonicity of rounding: the two
  differences are finite, and each is below 50 in absolute value before it is rounded.
\<close>

lemma sqrt_2500: "sqrt 2500 = 50"
proof -
  have "sqrt 2500 = sqrt (50\<^sup>2)" by simp
  also have "\<dots> = 50" by (simp del: power2_eq_square)
  finally show ?thesis .
qed

lemma square_less_2500: "a * a < 2500 \<Longrightarrow> \<bar>a\<bar> < (50::real)"
proof (rule ccontr)
  assume a: "a * a < 2500" and "\<not> \<bar>a\<bar> < 50"
  then have "50 \<le> \<bar>a\<bar>" by simp
  then have "50 * 50 \<le> \<bar>a\<bar> * \<bar>a\<bar>" by (intro mult_mono) simp_all
  with a show False by (simp add: abs_mult_self_eq)
qed

lemma distance_test:
  assumes "jlt (jsqrt (jadd (jmul dx dx) (jmul dy dy))) (Fin 50)"
  shows "isFinite dx" and "isFinite dy" and "\<bar>realOf dx\<bar> < 50" and "\<bar>realOf dy\<bar> < 50"
proof -
  from jlt_Fin_cases [OF assms] jsqrt_not_NInf
  obtain r where r: "jsqrt (jadd (jmul dx dx) (jmul dy dy)) = Fin r" "r < 50" by blast
  let ?s = "realOf (jadd (jmul dx dx) (jmul dy dy))"
  from jsqrt_Fin_eq [OF r(1)]
  have s: "isFinite (jadd (jmul dx dx) (jmul dy dy))" "0 \<le> ?s" "r = rd (sqrt ?s)" by simp_all
  from isFinite_realOf [OF s(1)] have "jadd (jmul dx dx) (jmul dy dy) = Fin ?s" .
  from jadd_Fin_eq [OF this]
  have a: "isFinite (jmul dx dx)" "isFinite (jmul dy dy)"
    "?s = rd (realOf (jmul dx dx) + realOf (jmul dy dy))" by simp_all
  from jmul_self_Fin [OF isFinite_realOf [OF a(1)]]
  have x: "isFinite dx" "realOf (jmul dx dx) = rd (realOf dx * realOf dx)" by simp_all
  from jmul_self_Fin [OF isFinite_realOf [OF a(2)]]
  have y: "isFinite dy" "realOf (jmul dy dy) = rd (realOf dy * realOf dy)" by simp_all
  show "isFinite dx" and "isFinite dy" by fact+
  from r(2) s(3) have "sqrt ?s < 50" by (auto intro: rd_less_imp rd_small_ints)
  then have "?s < 2500" using real_sqrt_less_iff [of ?s 2500] sqrt_2500 by simp
  with a(3) have sum: "realOf (jmul dx dx) + realOf (jmul dy dy) < 2500"
    by (auto intro: rd_less_imp rd_small_ints)
  have "0 \<le> rd (realOf dx * realOf dx)" "0 \<le> rd (realOf dy * realOf dy)"
    by (simp_all add: rd_nonneg)
  with sum x(2) y(2) have "rd (realOf dx * realOf dx) < 2500" "rd (realOf dy * realOf dy) < 2500"
    by linarith+
  then have "realOf dx * realOf dx < 2500" "realOf dy * realOf dy < 2500"
    by (auto intro: rd_less_imp rd_small_ints)
  then show "\<bar>realOf dx\<bar> < 50" and "\<bar>realOf dy\<bar> < 50"
    by (auto intro: square_less_2500)
qed

lemma difference_below:
  assumes "jsub b a = Fin d" and "\<bar>d\<bar> < 50"
  shows "\<bar>realOf b - realOf a\<bar> < 50"
proof -
  from jsub_Fin_eq [OF assms(1)] have d: "d = rd (realOf b - realOf a)" .
  from assms(2) d have "rd (realOf b - realOf a) < 50" "- 50 < rd (realOf b - realOf a)"
    by linarith+
  then have "realOf b - realOf a < 50" "- 50 < realOf b - realOf a"
    by (auto intro: rd_less_imp rd_greater_imp rd_small_ints)
  then show ?thesis by linarith
qed

lemma displacement_test:
  assumes "jlt (computedDisplacement p q) (Fin 50)"
  shows "finitePoint p" and "finitePoint q"
    and "\<bar>realOf (pt_x q) - realOf (pt_x p)\<bar> < 50"
    and "\<bar>realOf (pt_y q) - realOf (pt_y p)\<bar> < 50"
proof -
  let ?dx = "jsub (pt_x q) (pt_x p)" and ?dy = "jsub (pt_y q) (pt_y p)"
  from assms have t: "jlt (jsqrt (jadd (jmul ?dx ?dx) (jmul ?dy ?dy))) (Fin 50)"
    by (simp add: computedDisplacement_def Let_def)
  note d = distance_test [OF t]
  from jsub_isFinite [OF d(1)] jsub_isFinite [OF d(2)]
  show "finitePoint p" and "finitePoint q" by (simp_all add: finitePoint_def)
  from difference_below [OF isFinite_realOf [OF d(1)] d(3)]
  show "\<bar>realOf (pt_x q) - realOf (pt_x p)\<bar> < 50" .
  from difference_below [OF isFinite_realOf [OF d(2)] d(4)]
  show "\<bar>realOf (pt_y q) - realOf (pt_y p)\<bar> < 50" .
qed

lemma filterStep_char:
  "filterStep st pp np (gf, tp, npp) i =
     (if spec_retained st pp np i
      then (gf @ [pointAt np i], tp @ [\<lparr>prev = pointAt pp i, curr = pointAt np i\<rparr>],
            npp @ [at32F np (i * 2), at32F np (i * 2 + 1)])
      else (gf, tp, npp))"
proof -
  let ?t = "jlt (computedDisplacement (pointAt pp i) (pointAt np i)) (Fin 50)"
  have f: "?t \<Longrightarrow> finitePoint (pointAt pp i) \<and> finitePoint (pointAt np i)"
    using displacement_test(1,2) [of "pointAt pp i" "pointAt np i"] by simp
  have n: "finitePoint (pointAt pp i) \<Longrightarrow> finitePoint (pointAt np i) \<Longrightarrow>
      \<not> isNaN (at32F pp (i * 2)) \<and> \<not> isNaN (at32F np (i * 2))"
    by (simp add: finitePoint_def pointAt_def isFinite_not_NaN)
  have c: "computedDisplacement (pointAt pp i) (pointAt np i) =
     jsqrt (jadd (jmul (jsub (at32F np (i * 2)) (at32F pp (i * 2)))
                       (jsub (at32F np (i * 2)) (at32F pp (i * 2))))
                 (jmul (jsub (at32F np (i * 2 + 1)) (at32F pp (i * 2 + 1)))
                       (jsub (at32F np (i * 2 + 1)) (at32F pp (i * 2 + 1)))))"
    by (simp add: computedDisplacement_def pointAt_def Let_def)
  show ?thesis
  proof (cases "spec_retained st pp np i")
    case True
    then have fl: "atData st i = Some 1" and t: "?t"
      and fp: "finitePoint (pointAt pp i)" "finitePoint (pointAt np i)"
      by (simp_all add: spec_retained_def)
    from t have t': "jlt (jsqrt (jadd (jmul (jsub (at32F np (i * 2)) (at32F pp (i * 2)))
                       (jsub (at32F np (i * 2)) (at32F pp (i * 2))))
                 (jmul (jsub (at32F np (i * 2 + 1)) (at32F pp (i * 2 + 1)))
                       (jsub (at32F np (i * 2 + 1)) (at32F pp (i * 2 + 1)))))) (Fin 50)"
      by (simp only: c)
    from n [OF fp] fl t' True show ?thesis
      by (simp add: filterStep_def Let_def pointAt_def)
  next
    case False
    then have d: "atData st i \<noteq> Some 1 \<or> \<not> ?t"
      using f by (auto simp: spec_retained_def)
    then have "atData st i \<noteq> Some 1 \<or>
      \<not> jlt (jsqrt (jadd (jmul (jsub (at32F np (i * 2)) (at32F pp (i * 2)))
                       (jsub (at32F np (i * 2)) (at32F pp (i * 2))))
                 (jmul (jsub (at32F np (i * 2 + 1)) (at32F pp (i * 2 + 1)))
                       (jsub (at32F np (i * 2 + 1)) (at32F pp (i * 2 + 1)))))) (Fin 50)"
      by (simp only: c)
    with False show ?thesis
      by (auto simp: filterStep_def Let_def)
  qed
qed

lemma filterLoop_upto:
  "foldl (filterStep st pp np) ([], [], []) [0..<n] =
     (map (pointAt np) (filter (spec_retained st pp np) [0..<n]),
      map (\<lambda>i. \<lparr>prev = pointAt pp i, curr = pointAt np i\<rparr>) (filter (spec_retained st pp np) [0..<n]),
      concat (map (\<lambda>i. [at32F np (i * 2), at32F np (i * 2 + 1)]) (filter (spec_retained st pp np) [0..<n])))"
  by (induction n) (simp_all add: filterStep_char)

lemma length_flattened: "length (concat (map (\<lambda>i. [f i, g i]) xs)) = 2 * length xs"
  by (induction xs) simp_all

lemma filterLoop_char:
  "filterLoop st pp np =
     (map (pointAt np) (filter (spec_retained st pp np) [0..<rows st]),
      map (\<lambda>i. \<lparr>prev = pointAt pp i, curr = pointAt np i\<rparr>) (filter (spec_retained st pp np) [0..<rows st]),
      concat (map (\<lambda>i. [at32F np (i * 2), at32F np (i * 2 + 1)]) (filter (spec_retained st pp np) [0..<rows st])))"
  by (simp add: filterLoop_def filterLoop_upto)

lemma trackPoints_flow:
  assumes "prevPoints s = Some pp" and "rows pp \<noteq> 0"
    and "prevGrayFrame s = Some pg" and "grayFrame s = Some g"
    and "calcOpticalFlowPyrLK cv pg g pp (winSize (settings s)) (maxLevel (settings s)) = Inr (np, st, er)"
  shows "trackPoints cv s =
     (case filterLoop st pp np of (gf, tp, npp) \<Rightarrow>
        s\<lparr>nextPoints := Some np, status := Some st, err := Some er,
          goodFeatures := gf, trackedPoints := tp,
          prevPoints := Some (if length npp > 0 then matFromArray (length npp div 2) 1 npp
                              else newMat)\<rparr>)"
  using assms by (simp add: trackPoints_def Let_def)


text \<open>
  C5, as the code has it. When the optical flow answers, \<^verbatim>\<open>trackPoints\<close> keeps exactly
  the points whose flag is set, whose previous and current coordinates are finite and
  whose displacement, as double arithmetic computes it, is below 50 pixels, in their
  order: the correspondences, the features and the new point matrix hold these points and
  no other. Every correspondence kept is finite and moved by less than 50 pixels along
  each axis.
\<close>

theorem trackPoints_filter:
  assumes "prevPoints s = Some pp" and "rows pp \<noteq> 0"
    and "prevGrayFrame s = Some pg" and "grayFrame s = Some g"
    and "calcOpticalFlowPyrLK cv pg g pp (winSize (settings s)) (maxLevel (settings s)) = Inr (np, st, er)"
  shows "trackedPoints (trackPoints cv s) =
           map (\<lambda>i. \<lparr>prev = pointAt pp i, curr = pointAt np i\<rparr>)
             (filter (spec_retained st pp np) [0..<rows st]) \<and>
         goodFeatures (trackPoints cv s) =
           map (pointAt np) (filter (spec_retained st pp np) [0..<rows st]) \<and>
         map_option rows (prevPoints (trackPoints cv s)) =
           Some (length (filter (spec_retained st pp np) [0..<rows st])) \<and>
         map_option data32F (prevPoints (trackPoints cv s)) =
           Some (concat (map (\<lambda>i. [at32F np (i * 2), at32F np (i * 2 + 1)])
             (filter (spec_retained st pp np) [0..<rows st]))) \<and>
         list_all (\<lambda>c. finitePoint (prev c) \<and> finitePoint (curr c) \<and>
                        jlt (computedDisplacement (prev c) (curr c)) (Fin 50) \<and>
                        \<bar>realOf (pt_x (curr c)) - realOf (pt_x (prev c))\<bar> < 50 \<and>
                        \<bar>realOf (pt_y (curr c)) - realOf (pt_y (prev c))\<bar> < 50)
           (trackedPoints (trackPoints cv s))"
proof -
  let ?kept = "filter (spec_retained st pp np) [0..<rows st]"
  have k: "\<forall>i \<in> set ?kept. spec_retained st pp np i" by simp
  have "list_all (\<lambda>c. finitePoint (prev c) \<and> finitePoint (curr c) \<and>
                        jlt (computedDisplacement (prev c) (curr c)) (Fin 50) \<and>
                        \<bar>realOf (pt_x (curr c)) - realOf (pt_x (prev c))\<bar> < 50 \<and>
                        \<bar>realOf (pt_y (curr c)) - realOf (pt_y (prev c))\<bar> < 50)
          (map (\<lambda>i. \<lparr>prev = pointAt pp i, curr = pointAt np i\<rparr>) ?kept)"
    using k displacement_test(3,4) unfolding list_all_iff
    by (auto simp: spec_retained_def)
  then show ?thesis
    by (simp add: trackPoints_flow [OF assms] filterLoop_char length_flattened
        matFromArray_def newMat_def)
qed

lemma sqrt_25: "sqrt 25 = 5"
proof -
  have "sqrt 25 = sqrt (5\<^sup>2)" by simp
  also have "\<dots> = 5" by (simp del: power2_eq_square)
  finally show ?thesis .
qed

lemma sqrt_3600: "sqrt 3600 = 60"
proof -
  have "sqrt 3600 = sqrt (60\<^sup>2)" by simp
  also have "\<dots> = 60" by (simp del: power2_eq_square)
  finally show ?thesis .
qed

lemma four_kept: "filter (spec_retained fourStatus fourPoints fourNext) [0..<4] = [0]"
proof -
  have u: "[0..<4] = [0, 1, 2, 3::nat]" by (simp add: upt_rec)
  show ?thesis
    unfolding u
    by (simp add: spec_retained_def fourStatus_def fourPoints_def fourNext_def atData_def
        at32F_def pointAt_def finitePoint_def computedDisplacement_def matFromArray_def
        jsub_def roundDouble_int sqrt_25 sqrt_3600 Let_def)
qed

theorem trackPoints_filter_witness:
  "prevPoints fourPointEngine = Some fourPoints \<and> rows fourPoints \<noteq> 0 \<and>
   prevGrayFrame fourPointEngine = Some grayPixel \<and> grayFrame fourPointEngine = Some grayPixel \<and>
   calcOpticalFlowPyrLK exampleCv grayPixel grayPixel fourPoints
     (winSize (settings fourPointEngine)) (maxLevel (settings fourPointEngine)) =
     Inr (fourNext, fourStatus, newMat) \<and>
   trackedPoints (trackPoints exampleCv fourPointEngine) =
     [\<lparr>prev = \<lparr>pt_x = Fin 1, pt_y = Fin 1\<rparr>, curr = \<lparr>pt_x = Fin 4, pt_y = Fin 5\<rparr>\<rparr>] \<and>
   goodFeatures (trackPoints exampleCv fourPointEngine) = [\<lparr>pt_x = Fin 4, pt_y = Fin 5\<rparr>] \<and>
   map_option data32F (prevPoints (trackPoints exampleCv fourPointEngine)) = Some [Fin 4, Fin 5]"
proof -
  have h1: "prevPoints fourPointEngine = Some fourPoints"
    by (simp add: fourPointEngine_def)
  have h2: "rows fourPoints \<noteq> 0"
    by (simp add: fourPoints_def matFromArray_def)
  have h3: "prevGrayFrame fourPointEngine = Some grayPixel"
    by (simp add: fourPointEngine_def)
  have h4: "grayFrame fourPointEngine = Some grayPixel"
    by (simp add: fourPointEngine_def)
  have h5: "calcOpticalFlowPyrLK exampleCv grayPixel grayPixel fourPoints
     (winSize (settings fourPointEngine)) (maxLevel (settings fourPointEngine)) =
     Inr (fourNext, fourStatus, newMat)"
    by (simp add: exampleCv_def)
  have r: "rows fourStatus = 4" by (simp add: fourStatus_def)
  have p: "pointAt fourPoints 0 = \<lparr>pt_x = Fin 1, pt_y = Fin 1\<rparr>"
    "pointAt fourNext 0 = \<lparr>pt_x = Fin 4, pt_y = Fin 5\<rparr>"
    "at32F fourNext 0 = Fin 4" "at32F fourNext (Suc 0) = Fin 5"
    by (simp_all add: pointAt_def at32F_def fourPoints_def fourNext_def matFromArray_def)
  from trackPoints_filter [OF h1 h2 h3 h4 h5]
  have "trackedPoints (trackPoints exampleCv fourPointEngine) =
     [\<lparr>prev = \<lparr>pt_x = Fin 1, pt_y = Fin 1\<rparr>, curr = \<lparr>pt_x = Fin 4, pt_y = Fin 5\<rparr>\<rparr>] \<and>
   goodFeatures (trackPoints exampleCv fourPointEngine) = [\<lparr>pt_x = Fin 4, pt_y = Fin 5\<rparr>] \<and>
   map_option data32F (prevPoints (trackPoints exampleCv fourPointEngine)) = Some [Fin 4, Fin 5]"
    by (simp add: r four_kept p)
  with h1 h2 h3 h4 h5 show ?thesis by simp
qed

section \<open>A point that moves by a little more than 50 pixels\<close>

lemma rd_round:
  assumes "pow2 k \<le> \<bar>x\<bar>" and "\<bar>x\<bar> < pow2 (k + 1)" and "- 1022 \<le> k"
    and "\<bar>x / pow2 (k - 52) - of_int n\<bar> < 1 / 2"
  shows "rd x = of_int n * pow2 (k - 52)"
proof -
  from assms(4) have "roundEven (x / pow2 (k - 52)) = n"
    by (intro roundEven_unique) simp
  with rd_normal [OF assms(1-3)] show ?thesis by simp
qed

lemma roundDouble_small:
  assumes "\<bar>x\<bar> \<le> 4096"
  shows "roundDouble x = Fin (rd x)"
proof -
  have a: "rd (- 4096) = - 4096" "rd 4096 = 4096"
    using rd_of_int [of "- 4096"] rd_of_int [of 4096] by simp_all
  have p: "- pow2 1024 < - 4096" "(4096::real) < pow2 1024"
    using int53_lt_pow2_1024 [of 4096] by simp_all
  from assms have "- 4096 \<le> x" "x \<le> 4096" by linarith+
  from roundDouble_between(1) [OF this a p] show ?thesis .
qed

text \<open>The five roundings of the distance of this point.\<close>

lemma nearFifty_dx:
  "rd (13107199 / 2 ^ 18 + 1048575 / 2 ^ 68) = 13107199 / 2 ^ 18"
proof -
  have "rd (13107199 / 2 ^ 18 + 1048575 / 2 ^ 68) = of_int 7036873880895488 * pow2 (5 - 52)"
    by (rule rd_round) (simp_all add: pow2_def)
  then show ?thesis by (simp add: pow2_def)
qed

lemma nearFifty_dy:
  "rd (5 / 256 - 3355 / 2 ^ 43) = 171798688485 / 2 ^ 43"
  using rd_exact [of 171798688485 "- 43"] by (simp add: pow2_def)

lemma nearFifty_dxx:
  "rd (13107199 / 2 ^ 18 * (13107199 / 2 ^ 18)) = 171798665625601 / 2 ^ 36"
  using rd_exact [of 171798665625601 "- 36"] by (simp add: pow2_def)

lemma nearFifty_dyy:
  "rd (171798688485 / 2 ^ 43 * (171798688485 / 2 ^ 43)) = 7036874142924803 / 2 ^ 64"
proof -
  have "rd (171798688485 / 2 ^ 43 * (171798688485 / 2 ^ 43)) =
      of_int 7036874142924803 * pow2 (- 12 - 52)"
    by (rule rd_round) (simp_all add: pow2_def)
  then show ?thesis by (simp add: pow2_def)
qed

lemma nearFifty_sum:
  "rd (171798665625601 / 2 ^ 36 + 7036874142924803 / 2 ^ 64) = 5497558138879999 / 2 ^ 41"
proof -
  have "rd (171798665625601 / 2 ^ 36 + 7036874142924803 / 2 ^ 64) =
      of_int 5497558138879999 * pow2 (11 - 52)"
    by (rule rd_round) (simp_all add: pow2_def)
  then show ?thesis by (simp add: pow2_def)
qed

lemma nearFifty_sqrt_bounds:
  "(7036874417766399 - 1 / 2) / 2 ^ 47 < sqrt (5497558138879999 / 2 ^ 41)"
  "sqrt (5497558138879999 / 2 ^ 41) < (7036874417766399 + 1 / 2) / 2 ^ 47"
proof -
  have "((7036874417766399 - 1 / 2) / 2 ^ 47)\<^sup>2 < (5497558138879999 / 2 ^ 41 :: real)"
    by (simp add: power2_eq_square)
  then show "(7036874417766399 - 1 / 2) / 2 ^ 47 < sqrt (5497558138879999 / 2 ^ 41)"
    by (rule real_less_rsqrt)
  have "(5497558138879999 / 2 ^ 41 :: real) < ((7036874417766399 + 1 / 2) / 2 ^ 47)\<^sup>2"
    by (simp add: power2_eq_square)
  then show "sqrt (5497558138879999 / 2 ^ 41) < (7036874417766399 + 1 / 2) / 2 ^ 47"
    by (intro real_less_lsqrt) simp_all
qed

lemma nearFifty_sqrt:
  "rd (sqrt (5497558138879999 / 2 ^ 41)) = 7036874417766399 / 2 ^ 47"
proof -
  let ?r = "sqrt (5497558138879999 / 2 ^ 41)"
  note b = nearFifty_sqrt_bounds
  have p: "0 < ?r" using b(1) by simp
  have "rd ?r = of_int 7036874417766399 * pow2 (5 - 52)"
  proof (rule rd_round)
    from b(1) show "pow2 5 \<le> \<bar>?r\<bar>" by (simp add: pow2_def)
    from b(2) show "\<bar>?r\<bar> < pow2 (5 + 1)" by (simp add: pow2_def)
    show "- 1022 \<le> (5::int)" by simp
    define q where "q = ?r * 2 ^ 47"
    have e: "?r / pow2 (5 - 52) = q" by (simp add: pow2_def q_def)
    from b(1) have l: "7036874417766399 - 1 / 2 < q"
      unfolding q_def by (simp only: pos_divide_less_eq zero_less_power zero_less_numeral)
    from b(2) have u: "q < 7036874417766399 + 1 / 2"
      unfolding q_def by (simp only: pos_less_divide_eq zero_less_power zero_less_numeral)
    from l u have "\<bar>q - 7036874417766399\<bar> < 1 / 2" by linarith
    then show "\<bar>?r / pow2 (5 - 52) - real_of_int 7036874417766399\<bar> < 1 / 2"
      unfolding e by simp
  qed
  then show ?thesis by (simp add: pow2_def)
qed

lemma nearFifty_computed:
  "computedDisplacement (pointAt nearFiftyPrev 0) (pointAt nearFiftyNext 0) =
     Fin (7036874417766399 / 2 ^ 47)"
proof -
  have dx: "jsub (Fin (13107199 / 2 ^ 18)) (Fin (- (1048575 / 2 ^ 68))) = Fin (13107199 / 2 ^ 18)"
    using roundDouble_small [of "13107199 / 2 ^ 18 + 1048575 / 2 ^ 68"] nearFifty_dx
    by (simp add: jsub_def)
  have dy: "jsub (Fin (5 / 256)) (Fin (3355 / 2 ^ 43)) = Fin (171798688485 / 2 ^ 43)"
    using roundDouble_small [of "5 / 256 - 3355 / 2 ^ 43"] nearFifty_dy
    by (simp add: jsub_def)
  have dxx: "jmul (Fin (13107199 / 2 ^ 18)) (Fin (13107199 / 2 ^ 18)) = Fin (171798665625601 / 2 ^ 36)"
    using roundDouble_small [of "13107199 / 2 ^ 18 * (13107199 / 2 ^ 18)"] nearFifty_dxx
    by simp
  have dyy: "jmul (Fin (171798688485 / 2 ^ 43)) (Fin (171798688485 / 2 ^ 43)) =
      Fin (7036874142924803 / 2 ^ 64)"
    using roundDouble_small [of "171798688485 / 2 ^ 43 * (171798688485 / 2 ^ 43)"] nearFifty_dyy
    by simp
  have sm: "jadd (Fin (171798665625601 / 2 ^ 36)) (Fin (7036874142924803 / 2 ^ 64)) =
      Fin (5497558138879999 / 2 ^ 41)"
    using roundDouble_small [of "171798665625601 / 2 ^ 36 + 7036874142924803 / 2 ^ 64"] nearFifty_sum
    by simp
  have sq: "jsqrt (Fin (5497558138879999 / 2 ^ 41)) = Fin (7036874417766399 / 2 ^ 47)"
  proof -
    have "\<bar>sqrt (5497558138879999 / 2 ^ 41)\<bar> \<le> 4096"
      using nearFifty_sqrt_bounds(2) by simp
    from roundDouble_small [OF this] nearFifty_sqrt show ?thesis by simp
  qed
  have p: "pointAt nearFiftyPrev 0 = \<lparr>pt_x = Fin (- (1048575 / 2 ^ 68)), pt_y = Fin (3355 / 2 ^ 43)\<rparr>"
    "pointAt nearFiftyNext 0 = \<lparr>pt_x = Fin (13107199 / 2 ^ 18), pt_y = Fin (5 / 256)\<rparr>"
    by (simp_all add: pointAt_def at32F_def nearFiftyPrev_def nearFiftyNext_def matFromArray_def)
  show ?thesis
    unfolding p computedDisplacement_def Let_def
    by (simp only: point.simps dx dy dxx dyy sm sq)
qed

lemma nearFifty_exact:
  "50 < displacement (pointAt nearFiftyPrev 0) (pointAt nearFiftyNext 0)"
proof -
  have p: "pointAt nearFiftyPrev 0 = \<lparr>pt_x = Fin (- (1048575 / 2 ^ 68)), pt_y = Fin (3355 / 2 ^ 43)\<rparr>"
    "pointAt nearFiftyNext 0 = \<lparr>pt_x = Fin (13107199 / 2 ^ 18), pt_y = Fin (5 / 256)\<rparr>"
    by (simp_all add: pointAt_def at32F_def nearFiftyPrev_def nearFiftyNext_def matFromArray_def)
  have "(50::real)\<^sup>2 < (13107199 / 2 ^ 18 - - (1048575 / 2 ^ 68))\<^sup>2 + (5 / 256 - 3355 / 2 ^ 43)\<^sup>2"
    by (simp add: power2_eq_square)
  then have "50 < sqrt ((13107199 / 2 ^ 18 - - (1048575 / 2 ^ 68))\<^sup>2 + (5 / 256 - 3355 / 2 ^ 43)\<^sup>2)"
    by (rule real_less_rsqrt)
  then show ?thesis
    unfolding p displacement_def by (simp only: point.simps realOf.simps)
qed

lemma nearFifty_retained: "spec_retained statusOne nearFiftyPrev nearFiftyNext 0"
proof -
  have c: "jlt (computedDisplacement (pointAt nearFiftyPrev 0) (pointAt nearFiftyNext 0)) (Fin 50)"
    unfolding nearFifty_computed by simp
  have f: "finitePoint (pointAt nearFiftyPrev 0)" "finitePoint (pointAt nearFiftyNext 0)"
    by (simp_all add: finitePoint_def pointAt_def at32F_def nearFiftyPrev_def nearFiftyNext_def
        matFromArray_def)
  have a: "atData statusOne 0 = Some 1"
    by (simp add: statusOne_def atData_def)
  show ?thesis
    using a f c by (simp add: spec_retained_def)
qed

text \<open>
  The claim C5 as the specification states it fails: the flow moves the one point of
  this engine, whose coordinates are 32-bit floats, by more than 50 pixels, yet the
  distance that the loop computes in double arithmetic is the double just below 50, and
  the point stays in the correspondences, in the features and in the point matrix.
\<close>

theorem trackPoints_filter_counterexample:
  "prevPoints nearFiftyEngine = Some nearFiftyPrev \<and>
   calcOpticalFlowPyrLK nearFiftyCv grayPixel grayPixel nearFiftyPrev
     (winSize (settings nearFiftyEngine)) (maxLevel (settings nearFiftyEngine)) =
     Inr (nearFiftyNext, statusOne, newMat) \<and>
   50 < displacement (pointAt nearFiftyPrev 0) (pointAt nearFiftyNext 0) \<and>
   computedDisplacement (pointAt nearFiftyPrev 0) (pointAt nearFiftyNext 0) =
     Fin (7036874417766399 / 2 ^ 47) \<and>
   trackedPoints (trackPoints nearFiftyCv nearFiftyEngine) =
     [\<lparr>prev = pointAt nearFiftyPrev 0, curr = pointAt nearFiftyNext 0\<rparr>] \<and>
   goodFeatures (trackPoints nearFiftyCv nearFiftyEngine) = [pointAt nearFiftyNext 0] \<and>
   map_option rows (prevPoints (trackPoints nearFiftyCv nearFiftyEngine)) = Some 1"
proof -
  have h1: "prevPoints nearFiftyEngine = Some nearFiftyPrev"
    by (simp add: nearFiftyEngine_def)
  have h2: "rows nearFiftyPrev \<noteq> 0"
    by (simp add: nearFiftyPrev_def matFromArray_def)
  have h3: "prevGrayFrame nearFiftyEngine = Some grayPixel"
    by (simp add: nearFiftyEngine_def)
  have h4: "grayFrame nearFiftyEngine = Some grayPixel"
    by (simp add: nearFiftyEngine_def)
  have h5: "calcOpticalFlowPyrLK nearFiftyCv grayPixel grayPixel nearFiftyPrev
     (winSize (settings nearFiftyEngine)) (maxLevel (settings nearFiftyEngine)) =
     Inr (nearFiftyNext, statusOne, newMat)"
    by (simp add: nearFiftyCv_def)
  have r: "rows statusOne = 1" by (simp add: statusOne_def)
  have "trackedPoints (trackPoints nearFiftyCv nearFiftyEngine) =
     [\<lparr>prev = pointAt nearFiftyPrev 0, curr = pointAt nearFiftyNext 0\<rparr>] \<and>
   goodFeatures (trackPoints nearFiftyCv nearFiftyEngine) = [pointAt nearFiftyNext 0] \<and>
   map_option rows (prevPoints (trackPoints nearFiftyCv nearFiftyEngine)) = Some 1"
    by (simp add: trackPoints_flow [OF h1 h2 h3 h4 h5] filterLoop_char r nearFifty_retained
        matFromArray_def)
  with h1 h5 nearFifty_exact nearFifty_computed show ?thesis by simp
qed


section \<open>The plane hypothesis\<close>

lemma fold_fsum: "foldl (\<lambda>acc x. jadd acc (f x)) (Fin 0) xs = fsum (map f xs)"
  by (simp add: fsum_def foldl_map)

lemma jlen_map: "jlen (map f xs) = jlen xs"
  by (simp add: jlen_def)

text \<open>The loops of \<^verbatim>\<open>estimatePlane\<close> compute the mean displacement, the variance
  around it and the centroid.\<close>

lemma avg_is_mean:
  "\<lparr>m_dx = avgDX tps, m_dy = avgDY tps\<rparr> = spec_meanDisplacement tps"
  by (simp add: avgDX_def avgDY_def totalDX_def totalDY_def dispX_def dispY_def
      spec_meanDisplacement_def fmean_def fold_fsum jlen_map)

lemma motionVariance_is_variance: "motionVariance tps = spec_variance tps"
proof -
  have v: "varStep (avgDX tps) (avgDY tps) acc pt =
      jadd acc (spec_deviation (spec_meanDisplacement tps) pt)" for acc pt
    by (simp add: varStep_def spec_deviation_def Let_def dispX_def dispY_def
        avg_is_mean [symmetric])
  then have "varStep (avgDX tps) (avgDY tps) =
      (\<lambda>acc pt. jadd acc (spec_deviation (spec_meanDisplacement tps) pt))"
    by (intro ext)
  then show ?thesis
    by (simp add: motionVariance_def spec_variance_def fmean_def fold_fsum jlen_map)
qed

lemma center_is_centroid: "\<lparr>pt_x = centerX fs, pt_y = centerY fs\<rparr> = spec_centroid fs"
  by (simp add: centerX_def centerY_def spec_centroid_def fmean_def fold_fsum jlen_map)

lemma estimatePlane_coherent:
  assumes "8 \<le> length (trackedPoints s)"
    and "jlt (spec_variance (trackedPoints s)) (Fin 100)"
  shows "estimatePlane s =
     (jlt (Fin (1 / 2)) (jmin (Fin 1) (jadd (planeConfidence s) (decimal 15 2))),
      s\<lparr>planeConfidence := jmin (Fin 1) (jadd (planeConfidence s) (decimal 15 2)),
        groundPlane := Some \<lparr>center = spec_centroid (goodFeatures s),
                              confidence = jmin (Fin 1) (jadd (planeConfidence s) (decimal 15 2)),
                              motion = spec_meanDisplacement (trackedPoints s)\<rparr>\<rparr>)"
proof -
  from assms(1) have l: "\<not> length (trackedPoints s) < 8" by simp
  from assms(2) have c: "jlt (motionVariance (trackedPoints s)) (Fin 100)"
    by (simp only: motionVariance_is_variance)
  show ?thesis
    by (simp add: estimatePlane_def l c Let_def center_is_centroid avg_is_mean)
qed

lemma estimatePlane_few:
  assumes "length (trackedPoints s) < 8"
  shows "estimatePlane s =
     (False, s\<lparr>planeConfidence := jmax (Fin 0) (jsub (planeConfidence s) (decimal 1 1))\<rparr>)"
  using assms by (simp add: estimatePlane_def)

section \<open>The features are the current positions of the correspondences\<close>

lemma featuresOk_cong:
  "goodFeatures s' = goodFeatures s \<Longrightarrow> trackedPoints s' = trackedPoints s \<Longrightarrow>
   featuresOk s' = featuresOk s"
  by (simp add: featuresOk_def)

lemma featuresOk_isTracking: "featuresOk (s\<lparr>isTracking := b\<rparr>) = featuresOk s"
  by (rule featuresOk_cong) simp_all

lemma featuresOk_prevGrayFrame: "featuresOk (s\<lparr>prevGrayFrame := g\<rparr>) = featuresOk s"
  by (rule featuresOk_cong) simp_all

lemma filterLoop_featuresOk:
  assumes "filterLoop st pp np = (gf, tp, npp)"
  shows "gf = map curr tp \<and> list_all finitePoint gf"
proof -
  have "\<forall>i \<in> set (filter (spec_retained st pp np) [0..<rows st]). finitePoint (pointAt np i)"
    by (simp add: spec_retained_def)
  then have "list_all finitePoint (map (pointAt np) (filter (spec_retained st pp np) [0..<rows st]))"
    unfolding list_all_iff by simp
  with assms show ?thesis
    by (auto simp: filterLoop_char comp_def)
qed

lemma trackPoints_featuresOk:
  assumes "featuresOk s"
  shows "featuresOk (trackPoints cv s)"
  using assms
  by (auto simp: trackPoints_def Let_def featuresOk_def
      split: option.splits sum.splits prod.splits dest: filterLoop_featuresOk)

lemma detectFeatures_features:
  "goodFeatures (detectFeatures cv s) = goodFeatures s \<and>
   trackedPoints (detectFeatures cv s) = trackedPoints s"
  by (simp add: detectFeatures_def split: option.splits sum.splits)

lemma estimatePlane_features:
  "goodFeatures (snd (estimatePlane s)) = goodFeatures s \<and>
   trackedPoints (snd (estimatePlane s)) = trackedPoints s"
  by (simp add: estimatePlane_def Let_def)

lemma estimatePose_features:
  "goodFeatures (estimatePose s) = goodFeatures s \<and>
   trackedPoints (estimatePose s) = trackedPoints s"
  by (simp add: estimatePose_def Let_def split: option.splits)

lemma prepare_features:
  "goodFeatures (outcomeEngine (prepare cv v s)) = goodFeatures s \<and>
   trackedPoints (outcomeEngine (prepare cv v s)) = trackedPoints s"
  by (simp add: prepare_def captureFrame_def toGray_def Let_def
      split: option.splits sum.splits outcome.splits)

lemma refreshStage_featuresOk:
  "refreshStage cv s = Inr (cs, s') \<Longrightarrow> featuresOk s \<Longrightarrow> featuresOk s'"
  using featuresOk_cong [of "detectFeatures cv s" s]
  by (auto simp: refreshStage_def detectFeatures_features split: option.splits if_splits)

lemma trackStage_featuresOk:
  assumes "trackStage cv res s = Inr (r, cs, s')" and "featuresOk s"
  shows "featuresOk s'"
proof -
  have tp: "featuresOk (trackPoints cv s)"
    using assms(2) by (rule trackPoints_featuresOk)
  have ep: "featuresOk (snd (estimatePlane (trackPoints cv s)))"
    using tp featuresOk_cong [of "snd (estimatePlane (trackPoints cv s))" "trackPoints cv s"]
    by (simp add: estimatePlane_features)
  have eo: "featuresOk (estimatePose (snd (estimatePlane (trackPoints cv s))))"
    using ep featuresOk_cong [of "estimatePose (snd (estimatePlane (trackPoints cv s)))"
        "snd (estimatePlane (trackPoints cv s))"]
    by (simp add: estimatePose_features)
  from assms(1) have "s' = s \<or> s' = trackPoints cv s \<or> s' = snd (estimatePlane (trackPoints cv s))
     \<or> s' = estimatePose (snd (estimatePlane (trackPoints cv s)))"
    by (auto simp: trackStage_def Let_def split: option.splits if_splits prod.splits)
  with assms(2) tp ep eo show ?thesis by auto
qed

lemma processFrame_featuresOk:
  assumes "featuresOk s"
  shows "featuresOk (snd (snd (processFrame cv now v s)))"
proof -
  have s1: "featuresOk (logTick now s)"
    using assms featuresOk_cong [of "logTick now s" s] by (simp add: logTick_def)
  have p: "featuresOk (outcomeEngine (prepare cv v (logTick now s)))"
    using s1 featuresOk_cong [of "outcomeEngine (prepare cv v (logTick now s))" "logTick now s"]
    by (simp add: prepare_features)
  show ?thesis
  proof (cases "prepare cv v (logTick now s)")
    case (Thrown e s4)
    with assms s1 p show ?thesis
      by (simp add: processFrame_def Let_def finish_def featuresOk_isTracking featuresOk_prevGrayFrame)
  next
    case (Done s4)
    with p have s4: "featuresOk s4" by simp
    show ?thesis
    proof (cases "refreshStage cv s4")
      case (Inl e)
      with assms s1 s4 Done show ?thesis
        by (simp add: processFrame_def Let_def finish_def featuresOk_isTracking featuresOk_prevGrayFrame)
    next
      case (Inr p5)
      obtain cs1 s5 where p5: "p5 = (cs1, s5)" by (cases p5)
      from Inr p5 s4 have s5: "featuresOk s5"
        by (auto dest: refreshStage_featuresOk)
      show ?thesis
      proof (cases "trackStage cv (defaultResult s) s5")
        case (Inl e)
        with assms s1 s5 Done Inr p5 show ?thesis
          by (simp add: processFrame_def Let_def finish_def featuresOk_isTracking featuresOk_prevGrayFrame)
      next
        case r: (Inr p6)
        obtain r6 cs2 s6 where p6: "p6 = (r6, cs2, s6)" by (cases p6)
        from r p6 s5 have "featuresOk s6"
          by (auto dest: trackStage_featuresOk)
        with assms s1 Done Inr p5 r p6 show ?thesis
          by (simp add: processFrame_def Let_def finish_def featuresOk_isTracking featuresOk_prevGrayFrame)
      qed
    qed
  qed
qed

lemma apply_operation_featuresOk:
  assumes "featuresOk s"
  shows "featuresOk (apply_operation cv s op)"
proof (cases op)
  case (Init b)
  with assms featuresOk_cong [of "apply_operation cv s op" s] show ?thesis
    by (simp add: init_def)
next
  case (ProcessFrame now v)
  with assms show ?thesis by (simp add: processFrame_featuresOk)
next
  case Reset
  then show ?thesis by (simp add: reset_def Let_def featuresOk_def split: option.splits)
next
  case (UpdateSettings kvs)
  with assms featuresOk_cong [of "apply_operation cv s op" s] show ?thesis
    by (simp add: updateSettings_def)
next
  case (DeviceOrientation a b g)
  with assms featuresOk_cong [of "apply_operation cv s op" s] show ?thesis
    by (simp add: deviceOrientation_def)
qed

lemma reachable_featuresOk: "featuresOk (run cv ops newEngine)"
proof -
  have "featuresOk s \<Longrightarrow> featuresOk (run cv ops s)" for s
    unfolding run_def
    by (induction ops arbitrary: s) (simp_all add: apply_operation_featuresOk)
  moreover have "featuresOk newEngine"
    by (simp add: featuresOk_def newEngine_def)
  ultimately show ?thesis by simp
qed


section \<open>The stages of a frame\<close>

lemma logTick_fields:
  "initialized (logTick now s) = initialized s"
  "prevPoints (logTick now s) = prevPoints s"
  "prevGrayFrame (logTick now s) = prevGrayFrame s"
  "settings (logTick now s) = settings s"
  "frameCount (logTick now s) = frameCount s"
  "trackedPoints (logTick now s) = trackedPoints s"
  "goodFeatures (logTick now s) = goodFeatures s"
  by (simp_all add: logTick_def)

lemma prepare_Done_fields:
  assumes "prepare cv v s = Done s4"
  shows "prevPoints s4 = prevPoints s" and "prevGrayFrame s4 = prevGrayFrame s"
    and "settings s4 = settings s" and "frameCount s4 = Suc (frameCount s)"
    and "trackedPoints s4 = trackedPoints s" and "goodFeatures s4 = goodFeatures s"
  using assms
  by (auto simp: prepare_def captureFrame_def toGray_def Let_def
      split: option.splits sum.splits outcome.splits if_splits)

lemma refreshStage_fields:
  assumes "refreshStage cv s = Inr (cs, s')"
  shows "prevGrayFrame s' = prevGrayFrame s" and "settings s' = settings s"
    and "trackedPoints s' = trackedPoints s" and "goodFeatures s' = goodFeatures s"
  using assms
  by (auto simp: refreshStage_def detectFeatures_def split: option.splits sum.splits if_splits)


lemma processFrame_stages:
  assumes "initialized s" and "videoWidth v \<noteq> 0" and "videoHeight v \<noteq> 0"
    and "prepare cv v (logTick now s) = Done s4"
    and "refreshStage cv s4 = Inr (cs1, s5)"
  shows "processFrame cv now v s =
     (case trackStage cv (defaultResult s) s5 of
        Inl e \<Rightarrow> finish (defaultResult s) cs1 s5
      | Inr (r, cs2, s6) \<Rightarrow>
          finish r (cs1 @ cs2 @ [CallDrawDebug]) (s6\<lparr>prevGrayFrame := grayFrame s6\<rparr>))"
  using assms by (simp add: processFrame_def Let_def)


lemma initial_prepare:
  "prepare exampleCv exampleVideo (logTick 0 initialEngine) =
     Done (outcomeEngine (prepare exampleCv exampleVideo (logTick 0 initialEngine)))"
  by (simp add: prepare_def captureFrame_def toGray_def logTick_def initialEngine_def
      newEngine_def exampleVideo_def exampleCv_def newMat8UC4_def Let_def)



section \<open>When the tracking step runs\<close>

lemma trackStage_skip:
  assumes "prevGrayFrame s = Some pg" and "prevPoints s = Some pp"
    and "\<not> (0 < rows pg \<and> minFeatures (settings s) \<le> rows pp)"
  shows "trackStage cv res s =
     Inr (res\<lparr>r_featureCount := rows pp, r_hasFeatures := (rows pp > 0)\<rparr>, [], s)"
  using assms by (auto simp: trackStage_def)










section \<open>The first frame\<close>

lemma detectFeatures_prevPoints:
  assumes "grayFrame s = Some g"
  shows "prevPoints (detectFeatures cv s) =
     Some (case goodFeaturesToTrack cv g (maxCorners (settings s)) (qualityLevel (settings s))
                  (minDistance (settings s)) (blockSize (settings s)) of
             Inl e \<Rightarrow> newMat
           | Inr pts \<Rightarrow> pts)"
  using assms by (simp add: detectFeatures_def split: sum.splits)

text \<open>
  C8, as the code has it. When the previous grey frame and the point matrix are empty and
  \<^verbatim>\<open>minFeatures\<close> is positive, a frame that reaches the refresh decision calls the
  detector once and reports the number of points it returned as the feature count (0 when
  it throws), with has-features true exactly when that number is positive; the tracking
  flag is false and the plane count is 0.
\<close>

theorem first_frame_report:
  assumes "initialized s" and "videoWidth v \<noteq> 0" and "videoHeight v \<noteq> 0"
    and "prepare cv v (logTick now s) = Done s4" and "grayFrame s4 = Some g"
    and "prevGrayFrame s = Some pg" and "rows pg = 0"
    and "prevPoints s = Some pp" and "rows pp = 0"
    and "0 < minFeatures (settings s)"
  shows "r_featureCount (fst (processFrame cv now v s)) =
           (case goodFeaturesToTrack cv g (maxCorners (settings s)) (qualityLevel (settings s))
                   (minDistance (settings s)) (blockSize (settings s)) of
              Inl e \<Rightarrow> 0 | Inr pts \<Rightarrow> rows pts) \<and>
         r_hasFeatures (fst (processFrame cv now v s)) =
           (0 < r_featureCount (fst (processFrame cv now v s))) \<and>
         r_isTracking (fst (processFrame cv now v s)) = False \<and>
         r_planeCount (fst (processFrame cv now v s)) = 0 \<and>
         fst (snd (processFrame cv now v s)) = [CallDetectFeatures, CallDrawDebug]"
proof -
  let ?found = "case goodFeaturesToTrack cv g (maxCorners (settings s)) (qualityLevel (settings s))
                   (minDistance (settings s)) (blockSize (settings s)) of
              Inl e \<Rightarrow> newMat | Inr pts \<Rightarrow> pts"
  from prepare_Done_fields [OF assms(4)] assms(6,8)
  have f: "prevPoints s4 = Some pp" "settings s4 = settings s" "prevGrayFrame s4 = Some pg"
    by (simp_all add: logTick_fields)
  have rs: "refreshStage cv s4 = Inr ([CallDetectFeatures], detectFeatures cv s4)"
    using assms(9,10) by (simp add: refreshStage_def needsRefresh_def f Let_def)
  from refreshStage_fields [OF rs] f
  have g: "prevGrayFrame (detectFeatures cv s4) = Some pg"
    "settings (detectFeatures cv s4) = settings s"
    by simp_all
  have p: "prevPoints (detectFeatures cv s4) = Some ?found"
    using detectFeatures_prevPoints [OF assms(5), of cv] by (simp add: f)
  have n: "\<not> (0 < rows pg \<and> minFeatures (settings (detectFeatures cv s4)) \<le> rows ?found)"
    using assms(7) by simp
  note ts = trackStage_skip [OF g(1) p n, of cv "defaultResult s"]
  note pf = processFrame_stages [OF assms(1-4) rs]
  have c: "rows ?found = (case goodFeaturesToTrack cv g (maxCorners (settings s)) (qualityLevel (settings s))
                   (minDistance (settings s)) (blockSize (settings s)) of
              Inl e \<Rightarrow> 0 | Inr pts \<Rightarrow> rows pts)"
    by (simp add: newMat_def split: sum.splits)
  show ?thesis
    unfolding pf ts by (simp add: finish_def defaultResult_def c)
qed

lemma initial_gray:
  "grayFrame (outcomeEngine (prepare exampleCv exampleVideo (logTick 0 initialEngine))) =
     Some grayPixel"
  by (simp add: prepare_def captureFrame_def toGray_def logTick_def initialEngine_def
      newEngine_def exampleVideo_def exampleCv_def newMat8UC4_def Let_def grayPixel_def)

theorem first_frame_report_witness:
  "initialized initialEngine \<and> videoWidth exampleVideo \<noteq> 0 \<and> videoHeight exampleVideo \<noteq> 0 \<and>
   prevGrayFrame initialEngine = Some newMat \<and> rows newMat = 0 \<and>
   prevPoints initialEngine = Some newMat \<and>
   0 < minFeatures (settings initialEngine) \<and>
   r_featureCount (fst (processFrame exampleCv 0 exampleVideo initialEngine)) = 5 \<and>
   r_hasFeatures (fst (processFrame exampleCv 0 exampleVideo initialEngine)) = True \<and>
   r_isTracking (fst (processFrame exampleCv 0 exampleVideo initialEngine)) = False"
proof -
  have h1: "initialized initialEngine" by (simp add: initialEngine_def)
  have h2: "videoWidth exampleVideo \<noteq> 0" by (simp add: exampleVideo_def)
  have h3: "videoHeight exampleVideo \<noteq> 0" by (simp add: exampleVideo_def)
  have h6: "prevGrayFrame initialEngine = Some newMat" by (simp add: initialEngine_def)
  have h7: "rows newMat = 0" by (simp add: newMat_def)
  have h8: "prevPoints initialEngine = Some newMat" by (simp add: initialEngine_def)
  have h10: "0 < minFeatures (settings initialEngine)"
    by (simp add: initialEngine_def newEngine_def defaultSettings_def)
  have d: "goodFeaturesToTrack exampleCv grayPixel (maxCorners (settings initialEngine))
      (qualityLevel (settings initialEngine)) (minDistance (settings initialEngine))
      (blockSize (settings initialEngine)) = Inr fiveCorners"
    by (simp add: exampleCv_def)
  have r: "rows fiveCorners = 5" by (simp add: fiveCorners_def matFromArray_def)
  from first_frame_report [OF h1 h2 h3 initial_prepare initial_gray h6 h7 h8 h7 h10]
  have "r_featureCount (fst (processFrame exampleCv 0 exampleVideo initialEngine)) = 5 \<and>
   r_hasFeatures (fst (processFrame exampleCv 0 exampleVideo initialEngine)) = True \<and>
   r_isTracking (fst (processFrame exampleCv 0 exampleVideo initialEngine)) = False"
    by (simp add: d r)
  with h1 h2 h3 h6 h7 h8 h10 show ?thesis by simp
qed

text \<open>
  The claim C8 as the specification states it fails: the engine just initialized has no
  previous grey frame and no tracked point, \<^verbatim>\<open>minFeatures\<close> is 15, and the detector
  returns five points for the frame; the result reports five features, tracking false,
  and has-features true, not false.
\<close>

theorem first_frame_counterexample:
  "initialized initialEngine \<and>
   map_option rows (prevGrayFrame initialEngine) = Some 0 \<and>
   map_option rows (prevPoints initialEngine) = Some 0 \<and>
   minFeatures (settings initialEngine) = 15 \<and>
   map_sum id rows (goodFeaturesToTrack exampleCv grayPixel 200 (1 / 100) 15 7) = Inr 5 \<and>
   fst (processFrame exampleCv 0 exampleVideo initialEngine) =
     \<lparr>r_isTracking = False, r_hasFeatures = True, r_featureCount = 5, r_planeCount = 0,
      r_pose = None, r_imu = \<lparr>alpha = Fin 0, beta = Fin 0, gamma = Fin 0\<rparr>\<rparr>"
  by (simp add: processFrame_def prepare_def captureFrame_def toGray_def refreshStage_def
      needsRefresh_def detectFeatures_def trackStage_def finish_def defaultResult_def
      logTick_def initialEngine_def
      newEngine_def exampleVideo_def exampleCv_def newMat8UC4_def newMat_def Let_def
      defaultSettings_def fiveCorners_def matFromArray_def grayPixel_def)




section \<open>When the plane estimation runs\<close>

lemma trackPoints_fields:
  "settings (trackPoints cv s) = settings s"
  "groundPlane (trackPoints cv s) = groundPlane s"
  by (simp_all add: trackPoints_def Let_def split: option.splits sum.splits prod.splits)

lemma estimatePose_groundPlane: "groundPlane (estimatePose s) = groundPlane s"
  by (simp add: estimatePose_def Let_def split: option.splits)

lemma logTick_plane:
  "planeConfidence (logTick now s) = planeConfidence s"
  "groundPlane (logTick now s) = groundPlane s"
  by (simp_all add: logTick_def)

lemma prepare_Done_plane:
  assumes "prepare cv v s = Done s4"
  shows "planeConfidence s4 = planeConfidence s" and "groundPlane s4 = groundPlane s"
  using assms
  by (auto simp: prepare_def captureFrame_def toGray_def Let_def
      split: option.splits sum.splits outcome.splits if_splits)

lemma refreshStage_plane:
  assumes "refreshStage cv s = Inr (cs, s')"
  shows "planeConfidence s' = planeConfidence s" and "groundPlane s' = groundPlane s"
    and "count_list cs CallEstimatePlane = 0"
  using assms
  by (auto simp: refreshStage_def detectFeatures_def split: option.splits sum.splits if_splits)

lemma prepare_Done_featuresOk:
  assumes "prepare cv v s = Done s4" and "featuresOk s"
  shows "featuresOk s4"
  using assms prepare_features [of cv v s] featuresOk_cong [of s4 s] by simp

lemma trackStage_gate:
  assumes "prevGrayFrame s = Some pg" and "prevPoints s = Some pp"
    and "0 < rows pg \<and> minFeatures (settings s) \<le> rows pp"
    and "length (goodFeatures (trackPoints cv s)) < minFeatures (settings s)"
  shows "trackStage cv res s =
     Inr (res\<lparr>r_featureCount := length (goodFeatures (trackPoints cv s)),
               r_hasFeatures := False\<rparr>, [CallTrackPoints], trackPoints cv s)"
  using assms by (simp add: trackStage_def Let_def trackPoints_fields)

lemma trackStage_estimate:
  assumes "prevGrayFrame s = Some pg" and "prevPoints s = Some pp"
    and "0 < rows pg \<and> minFeatures (settings s) \<le> rows pp"
    and "minFeatures (settings s) \<le> length (goodFeatures (trackPoints cv s))"
    and "estimatePlane (trackPoints cv s) = (found, s2)"
  shows "trackStage cv res s =
     Inr (if found
          then (res\<lparr>r_featureCount := length (goodFeatures (trackPoints cv s)),
                     r_hasFeatures := True, r_planeCount := 1, r_isTracking := True,
                     r_pose := currentPose (estimatePose s2)\<rparr>,
                [CallTrackPoints, CallEstimatePlane, CallEstimatePose], estimatePose s2)
          else (res\<lparr>r_featureCount := length (goodFeatures (trackPoints cv s)),
                     r_hasFeatures := True, r_planeCount := 0\<rparr>,
                [CallTrackPoints, CallEstimatePlane], s2))"
  using assms by (simp add: trackStage_def Let_def trackPoints_fields)

text \<open>The engine at the tracking decision of a frame.\<close>

lemma at_decision:
  assumes "prepare cv v (logTick now s) = Done s4"
    and "refreshStage cv s4 = Inr (cs1, s5)"
  shows "planeConfidence s5 = planeConfidence s" and "groundPlane s5 = groundPlane s"
    and "prevGrayFrame s5 = prevGrayFrame s" and "settings s5 = settings s"
    and "count_list cs1 CallEstimatePlane = 0"
    and "featuresOk s \<Longrightarrow> featuresOk s5"
proof -
  from prepare_Done_plane [OF assms(1)] refreshStage_plane [OF assms(2)]
  show "planeConfidence s5 = planeConfidence s" and "groundPlane s5 = groundPlane s"
    and "count_list cs1 CallEstimatePlane = 0"
    by (simp_all add: logTick_plane)
  from prepare_Done_fields [OF assms(1)] refreshStage_fields [OF assms(2)]
  show "prevGrayFrame s5 = prevGrayFrame s" and "settings s5 = settings s"
    by (simp_all add: logTick_fields)
  assume "featuresOk s"
  then have "featuresOk (logTick now s)"
    using featuresOk_cong [of "logTick now s" s] by (simp add: logTick_fields)
  from prepare_Done_featuresOk [OF assms(1) this] have "featuresOk s4" .
  with assms(2) show "featuresOk s5" by (rule refreshStage_featuresOk)
qed

text \<open>
  A frame that reaches the tracking decision runs \<^verbatim>\<open>estimatePlane\<close> exactly when it
  tracks and keeps at least \<^verbatim>\<open>minFeatures\<close> correspondences. When it does not, the
  confidence and the plane stay as they are.
\<close>

lemma frame_without_estimate:
  assumes "initialized s" and "videoWidth v \<noteq> 0" and "videoHeight v \<noteq> 0"
    and "prepare cv v (logTick now s) = Done s4"
    and "refreshStage cv s4 = Inr (cs1, s5)"
    and "prevGrayFrame s = Some pg"
    and "prevPoints s5 = Some pp"
    and "featuresOk s"
    and "\<not> (0 < rows pg \<and> minFeatures (settings s) \<le> rows pp \<and>
            minFeatures (settings s) \<le> length (trackedPoints (trackPoints cv s5)))"
  shows "count_list (fst (snd (processFrame cv now v s))) CallEstimatePlane = 0"
    and "planeConfidence (snd (snd (processFrame cv now v s))) = planeConfidence s"
    and "groundPlane (snd (snd (processFrame cv now v s))) = groundPlane s"
    and "r_planeCount (fst (processFrame cv now v s)) = 0"
    and "\<not> r_isTracking (fst (processFrame cv now v s))"
proof -
  note pf = processFrame_stages [OF assms(1-5)]
  note d = at_decision [OF assms(4,5)]
  from d(3) assms(6) have g: "prevGrayFrame s5 = Some pg" by simp
  have r: "count_list (fst (snd (processFrame cv now v s))) CallEstimatePlane = 0 \<and>
    planeConfidence (snd (snd (processFrame cv now v s))) = planeConfidence s \<and>
    groundPlane (snd (snd (processFrame cv now v s))) = groundPlane s \<and>
    r_planeCount (fst (processFrame cv now v s)) = 0 \<and>
    \<not> r_isTracking (fst (processFrame cv now v s))"
  proof (cases "0 < rows pg \<and> minFeatures (settings s) \<le> rows pp")
    case False
    then have "\<not> (0 < rows pg \<and> minFeatures (settings s5) \<le> rows pp)"
      by (simp add: d(4))
    from trackStage_skip [OF g assms(7) this, of cv "defaultResult s"] d(1,2,5)
    show ?thesis unfolding pf by (simp add: finish_def defaultResult_def)
  next
    case True
    then have run: "0 < rows pg \<and> minFeatures (settings s5) \<le> rows pp"
      by (simp add: d(4))
    from d(6) [OF assms(8)] have "featuresOk (trackPoints cv s5)"
      by (rule trackPoints_featuresOk)
    then have "length (goodFeatures (trackPoints cv s5)) = length (trackedPoints (trackPoints cv s5))"
      by (simp add: featuresOk_def)
    with True assms(9) have "length (goodFeatures (trackPoints cv s5)) < minFeatures (settings s5)"
      by (simp add: d(4))
    from trackStage_gate [OF g assms(7) run this, of "defaultResult s"] d(1,2,5)
    show ?thesis unfolding pf
      by (simp add: finish_def defaultResult_def trackPoints_confidence trackPoints_fields)
  qed
  from r show "count_list (fst (snd (processFrame cv now v s))) CallEstimatePlane = 0"
    and "planeConfidence (snd (snd (processFrame cv now v s))) = planeConfidence s"
    and "groundPlane (snd (snd (processFrame cv now v s))) = groundPlane s"
    and "r_planeCount (fst (processFrame cv now v s)) = 0"
    and "\<not> r_isTracking (fst (processFrame cv now v s))"
    by simp_all
qed

lemma frame_with_estimate:
  assumes "initialized s" and "videoWidth v \<noteq> 0" and "videoHeight v \<noteq> 0"
    and "prepare cv v (logTick now s) = Done s4"
    and "refreshStage cv s4 = Inr (cs1, s5)"
    and "prevGrayFrame s = Some pg"
    and "prevPoints s5 = Some pp"
    and "featuresOk s"
    and "0 < rows pg" and "minFeatures (settings s) \<le> rows pp"
    and "minFeatures (settings s) \<le> length (trackedPoints (trackPoints cv s5))"
  shows "count_list (fst (snd (processFrame cv now v s))) CallEstimatePlane = 1"
    and "planeConfidence (snd (snd (processFrame cv now v s))) =
           planeConfidence (snd (estimatePlane (trackPoints cv s5)))"
    and "groundPlane (snd (snd (processFrame cv now v s))) =
           groundPlane (snd (estimatePlane (trackPoints cv s5)))"
    and "r_isTracking (fst (processFrame cv now v s)) = fst (estimatePlane (trackPoints cv s5))"
    and "r_planeCount (fst (processFrame cv now v s)) =
           (if fst (estimatePlane (trackPoints cv s5)) then 1 else 0)"
    and "trackedPoints (snd (snd (processFrame cv now v s))) = trackedPoints (trackPoints cv s5)"
    and "planeConfidence (trackPoints cv s5) = planeConfidence s"
    and "groundPlane (trackPoints cv s5) = groundPlane s"
    and "goodFeatures (trackPoints cv s5) = map curr (trackedPoints (trackPoints cv s5))"
proof -
  note pf = processFrame_stages [OF assms(1-5)]
  note d = at_decision [OF assms(4,5)]
  from d(3) assms(6) have g: "prevGrayFrame s5 = Some pg" by simp
  from assms(9,10) have run: "0 < rows pg \<and> minFeatures (settings s5) \<le> rows pp"
    by (simp add: d(4))
  from d(6) [OF assms(8)] have ok: "featuresOk (trackPoints cv s5)"
    by (rule trackPoints_featuresOk)
  then show gf: "goodFeatures (trackPoints cv s5) = map curr (trackedPoints (trackPoints cv s5))"
    unfolding featuresOk_def by (rule conjunct1)
  then have "length (goodFeatures (trackPoints cv s5)) = length (trackedPoints (trackPoints cv s5))"
    by simp
  with assms(11) have gate: "minFeatures (settings s5) \<le> length (goodFeatures (trackPoints cv s5))"
    by (simp add: d(4))
  show "planeConfidence (trackPoints cv s5) = planeConfidence s"
    and "groundPlane (trackPoints cv s5) = groundPlane s"
    by (simp_all add: trackPoints_confidence trackPoints_fields d(1,2))
  obtain found s2 where e: "estimatePlane (trackPoints cv s5) = (found, s2)"
    by (cases "estimatePlane (trackPoints cv s5)")
  have f: "trackedPoints s2 = trackedPoints (trackPoints cv s5)"
    using estimatePlane_features [of "trackPoints cv s5"] e by simp
  note ts = trackStage_estimate [OF g assms(7) run gate e, of "defaultResult s"]
  have r: "count_list (fst (snd (processFrame cv now v s))) CallEstimatePlane = 1 \<and>
    planeConfidence (snd (snd (processFrame cv now v s))) = planeConfidence s2 \<and>
    groundPlane (snd (snd (processFrame cv now v s))) = groundPlane s2 \<and>
    r_isTracking (fst (processFrame cv now v s)) = found \<and>
    r_planeCount (fst (processFrame cv now v s)) = (if found then 1 else 0) \<and>
    trackedPoints (snd (snd (processFrame cv now v s))) = trackedPoints s2"
    unfolding pf ts using d(5)
    by (simp add: finish_def defaultResult_def estimatePose_confidence estimatePose_groundPlane
        estimatePose_features)
  with e f show "count_list (fst (snd (processFrame cv now v s))) CallEstimatePlane = 1"
    and "planeConfidence (snd (snd (processFrame cv now v s))) =
           planeConfidence (snd (estimatePlane (trackPoints cv s5)))"
    and "groundPlane (snd (snd (processFrame cv now v s))) =
           groundPlane (snd (estimatePlane (trackPoints cv s5)))"
    and "r_isTracking (fst (processFrame cv now v s)) = fst (estimatePlane (trackPoints cv s5))"
    and "r_planeCount (fst (processFrame cv now v s)) =
           (if fst (estimatePlane (trackPoints cv s5)) then 1 else 0)"
    and "trackedPoints (snd (snd (processFrame cv now v s))) = trackedPoints (trackPoints cv s5)"
    by simp_all
qed


lemma frame_tracked:
  assumes "initialized s" and "videoWidth v \<noteq> 0" and "videoHeight v \<noteq> 0"
    and "prepare cv v (logTick now s) = Done s4"
    and "refreshStage cv s4 = Inr (cs1, s5)"
    and "prevGrayFrame s = Some pg"
    and "prevPoints s5 = Some pp"
    and "featuresOk s"
    and "0 < rows pg" and "minFeatures (settings s) \<le> rows pp"
  shows "trackedPoints (snd (snd (processFrame cv now v s))) = trackedPoints (trackPoints cv s5)"
proof (cases "minFeatures (settings s) \<le> length (trackedPoints (trackPoints cv s5))")
  case True
  from frame_with_estimate(6) [OF assms True] show ?thesis .
next
  case False
  note pf = processFrame_stages [OF assms(1-5)]
  note d = at_decision [OF assms(4,5)]
  from d(3) assms(6) have g: "prevGrayFrame s5 = Some pg" by simp
  from assms(9,10) have run: "0 < rows pg \<and> minFeatures (settings s5) \<le> rows pp"
    by (simp add: d(4))
  from d(6) [OF assms(8)] have "featuresOk (trackPoints cv s5)"
    by (rule trackPoints_featuresOk)
  then have "length (goodFeatures (trackPoints cv s5)) = length (trackedPoints (trackPoints cv s5))"
    by (simp add: featuresOk_def)
  with False have "length (goodFeatures (trackPoints cv s5)) < minFeatures (settings s5)"
    by (simp add: d(4))
  from trackStage_gate [OF g assms(7) run this, of "defaultResult s"]
  show ?thesis unfolding pf by (simp add: finish_def)
qed

text \<open>
  C2, as the code has it. Take a frame that reaches the tracking decision, on an engine
  whose features are the current positions of its correspondences (as in every engine
  reached from the constructor), and let the correspondences after the frame be at least
  eight, with a displacement variance around the mean displacement, both computed in
  double arithmetic, below 100. \<^verbatim>\<open>processFrame\<close> runs \<^verbatim>\<open>estimatePlane\<close> exactly
  when the frame tracks (the previous grey frame is not empty and at least
  \<^verbatim>\<open>minFeatures\<close> points are followed) and at least \<^verbatim>\<open>minFeatures\<close>
  correspondences are kept. Then the confidence becomes the smaller of 1 and the rounded
  sum of the confidence and 0.15, the plane stored has the centroid of the features as its
  centre, this confidence and the mean displacement, and the frame reports tracking and
  one plane exactly when the new confidence exceeds 0.5. Otherwise the confidence and the
  plane stay as they were and the frame reports no plane.
\<close>

theorem coherent_frame:
  assumes "initialized s" and "videoWidth v \<noteq> 0" and "videoHeight v \<noteq> 0"
    and "prepare cv v (logTick now s) = Done s4"
    and "refreshStage cv s4 = Inr (cs1, s5)"
    and "prevGrayFrame s = Some pg"
    and "prevPoints s5 = Some pp"
    and "featuresOk s"
    and "trackedPoints (snd (snd (processFrame cv now v s))) = tps"
    and "8 \<le> length tps"
    and "jlt (spec_variance tps) (Fin 100)"
    and "c' = jmin (Fin 1) (jadd (planeConfidence s) (decimal 15 2))"
  shows "if 0 < rows pg \<and> minFeatures (settings s) \<le> rows pp \<and>
            minFeatures (settings s) \<le> length tps
         then count_list (fst (snd (processFrame cv now v s))) CallEstimatePlane = 1 \<and>
              planeConfidence (snd (snd (processFrame cv now v s))) = c' \<and>
              groundPlane (snd (snd (processFrame cv now v s))) =
                Some \<lparr>center = spec_centroid (map curr tps), confidence = c',
                      motion = spec_meanDisplacement tps\<rparr> \<and>
              r_isTracking (fst (processFrame cv now v s)) = jlt (Fin (1 / 2)) c' \<and>
              r_planeCount (fst (processFrame cv now v s)) = (if jlt (Fin (1 / 2)) c' then 1 else 0)
         else count_list (fst (snd (processFrame cv now v s))) CallEstimatePlane = 0 \<and>
              planeConfidence (snd (snd (processFrame cv now v s))) = planeConfidence s \<and>
              groundPlane (snd (snd (processFrame cv now v s))) = groundPlane s \<and>
              \<not> r_isTracking (fst (processFrame cv now v s)) \<and>
              r_planeCount (fst (processFrame cv now v s)) = 0"
proof (cases "0 < rows pg \<and> minFeatures (settings s) \<le> rows pp")
  case run: True
  then have r1: "0 < rows pg" and r2: "minFeatures (settings s) \<le> rows pp" by simp_all
  from frame_tracked [OF assms(1-8) r1 r2] assms(9)
  have t: "trackedPoints (trackPoints cv s5) = tps" by simp
  show ?thesis
  proof (cases "minFeatures (settings s) \<le> length tps")
    case True
    then have m: "minFeatures (settings s) \<le> length (trackedPoints (trackPoints cv s5))"
      by (simp add: t)
    note f = frame_with_estimate [OF assms(1-8) r1 r2 m]
    from assms(10,11) have "8 \<le> length (trackedPoints (trackPoints cv s5))"
      and "jlt (spec_variance (trackedPoints (trackPoints cv s5))) (Fin 100)"
      by (simp_all add: t)
    from estimatePlane_coherent [OF this]
    have "fst (estimatePlane (trackPoints cv s5)) = jlt (Fin (1 / 2)) c'"
      and "planeConfidence (snd (estimatePlane (trackPoints cv s5))) = c'"
      and "groundPlane (snd (estimatePlane (trackPoints cv s5))) =
        Some \<lparr>center = spec_centroid (map curr tps), confidence = c',
              motion = spec_meanDisplacement tps\<rparr>"
      by (simp_all add: f(7,9) t assms(12))
    with f(1-5) run True show ?thesis by simp
  next
    case False
    with t have "\<not> (0 < rows pg \<and> minFeatures (settings s) \<le> rows pp \<and>
            minFeatures (settings s) \<le> length (trackedPoints (trackPoints cv s5)))"
      by simp
    from frame_without_estimate [OF assms(1-8) this] False show ?thesis by simp
  qed
next
  case False
  then have "\<not> (0 < rows pg \<and> minFeatures (settings s) \<le> rows pp \<and>
            minFeatures (settings s) \<le> length (trackedPoints (trackPoints cv s5)))"
    by blast
  from frame_without_estimate [OF assms(1-8) this] False show ?thesis by auto
qed


text \<open>
  C3, as the code has it. Take a frame that reaches the tracking decision, on an engine
  whose features are the current positions of its correspondences, and let the
  correspondences after the frame be fewer than eight. The frame reports no plane and no
  tracking and leaves the stored plane as it was. \<^verbatim>\<open>processFrame\<close> runs
  \<^verbatim>\<open>estimatePlane\<close> exactly when the frame tracks and at least \<^verbatim>\<open>minFeatures\<close>
  correspondences are kept, which needs a \<^verbatim>\<open>minFeatures\<close> setting below 8; then the
  confidence becomes the larger of 0 and the rounded difference of the confidence and
  0.1. Otherwise the confidence is unchanged. In both cases a confidence between 0 and 1
  does not increase.
\<close>

theorem few_correspondences_frame:
  assumes "initialized s" and "videoWidth v \<noteq> 0" and "videoHeight v \<noteq> 0"
    and "prepare cv v (logTick now s) = Done s4"
    and "refreshStage cv s4 = Inr (cs1, s5)"
    and "prevGrayFrame s = Some pg"
    and "prevPoints s5 = Some pp"
    and "featuresOk s"
    and "trackedPoints (snd (snd (processFrame cv now v s))) = tps"
    and "length tps < 8"
  shows "r_planeCount (fst (processFrame cv now v s)) = 0 \<and>
         \<not> r_isTracking (fst (processFrame cv now v s)) \<and>
         groundPlane (snd (snd (processFrame cv now v s))) = groundPlane s \<and>
         (if 0 < rows pg \<and> minFeatures (settings s) \<le> rows pp \<and>
             minFeatures (settings s) \<le> length tps
          then count_list (fst (snd (processFrame cv now v s))) CallEstimatePlane = 1 \<and>
               planeConfidence (snd (snd (processFrame cv now v s))) =
                 jmax (Fin 0) (jsub (planeConfidence s) (decimal 1 1))
          else count_list (fst (snd (processFrame cv now v s))) CallEstimatePlane = 0 \<and>
               planeConfidence (snd (snd (processFrame cv now v s))) = planeConfidence s) \<and>
         (inUnit (planeConfidence s) \<longrightarrow>
            \<not> jlt (planeConfidence s) (planeConfidence (snd (snd (processFrame cv now v s)))))"
proof -
  let ?est = "0 < rows pg \<and> minFeatures (settings s) \<le> rows pp \<and>
             minFeatures (settings s) \<le> length tps"
  let ?c = "planeConfidence (snd (snd (processFrame cv now v s)))"
  have main: "r_planeCount (fst (processFrame cv now v s)) = 0 \<and>
         \<not> r_isTracking (fst (processFrame cv now v s)) \<and>
         groundPlane (snd (snd (processFrame cv now v s))) = groundPlane s \<and>
         (if ?est
          then count_list (fst (snd (processFrame cv now v s))) CallEstimatePlane = 1 \<and>
               ?c = jmax (Fin 0) (jsub (planeConfidence s) (decimal 1 1))
          else count_list (fst (snd (processFrame cv now v s))) CallEstimatePlane = 0 \<and>
               ?c = planeConfidence s)"
  proof (cases ?est)
    case True
    then have r1: "0 < rows pg" and r2: "minFeatures (settings s) \<le> rows pp" by simp_all
    from frame_tracked [OF assms(1-8) r1 r2] assms(9)
    have t: "trackedPoints (trackPoints cv s5) = tps" by simp
    from True have m: "minFeatures (settings s) \<le> length (trackedPoints (trackPoints cv s5))"
      by (simp add: t)
    note f = frame_with_estimate [OF assms(1-8) r1 r2 m]
    from assms(10) have "length (trackedPoints (trackPoints cv s5)) < 8" by (simp add: t)
    from estimatePlane_few [OF this]
    have "\<not> fst (estimatePlane (trackPoints cv s5))"
      and "planeConfidence (snd (estimatePlane (trackPoints cv s5))) =
             jmax (Fin 0) (jsub (planeConfidence s) (decimal 1 1))"
      and "groundPlane (snd (estimatePlane (trackPoints cv s5))) = groundPlane s"
      by (simp_all add: f(7,8))
    with f(1-5) True show ?thesis by simp
  next
    case False
    have "\<not> (0 < rows pg \<and> minFeatures (settings s) \<le> rows pp \<and>
            minFeatures (settings s) \<le> length (trackedPoints (trackPoints cv s5)))"
    proof
      assume a: "0 < rows pg \<and> minFeatures (settings s) \<le> rows pp \<and>
            minFeatures (settings s) \<le> length (trackedPoints (trackPoints cv s5))"
      then have r1: "0 < rows pg" and r2: "minFeatures (settings s) \<le> rows pp" by simp_all
      from frame_tracked [OF assms(1-8) r1 r2] assms(9)
      have "trackedPoints (trackPoints cv s5) = tps" by simp
      with a False show False by simp
    qed
    from frame_without_estimate [OF assms(1-8) this] False show ?thesis by simp
  qed
  have "\<not> jlt (planeConfidence s) ?c" if u: "inUnit (planeConfidence s)"
  proof -
    from u obtain r where r: "planeConfidence s = Fin r" "0 \<le> r" "r \<le> 1"
      by (auto simp: inUnit_Fin)
    from decrement_value [OF r(2,3)] obtain y
      where y: "jmax (Fin 0) (jsub (Fin r) (decimal 1 1)) = Fin y" "y \<le> r" by blast
    from main have "?c = jmax (Fin 0) (jsub (planeConfidence s) (decimal 1 1)) \<or>
      ?c = planeConfidence s"
      by (simp split: if_splits)
    with r(1) y show ?thesis by auto
  qed
  with main show ?thesis by simp
qed


section \<open>Frames of fifteen followed points\<close>

lemma fifteen_engines:
  assumes "E = fifteenPointEngine \<or> E = confidentEngine \<or> E = lenientEngine"
  shows "initialized E" and "prevGrayFrame E = Some grayPixel" and "featuresOk E"
  using assms
  by (auto simp: lenientEngine_def confidentEngine_def fifteenPointEngine_def
      initialEngine_def newEngine_def featuresOk_def)

lemma fifteen_stages:
  assumes "E = fifteenPointEngine \<or> E = confidentEngine \<or> E = lenientEngine"
  shows "prepare (flowCv st) exampleVideo (logTick 0 E) =
           Done (outcomeEngine (prepare (flowCv st) exampleVideo (logTick 0 E)))"
    and "refreshStage (flowCv st) (outcomeEngine (prepare (flowCv st) exampleVideo (logTick 0 E))) =
           Inr ([], outcomeEngine (prepare (flowCv st) exampleVideo (logTick 0 E)))"
    and "prevPoints (outcomeEngine (prepare (flowCv st) exampleVideo (logTick 0 E))) =
           Some fifteenPoints"
    and "prevGrayFrame (outcomeEngine (prepare (flowCv st) exampleVideo (logTick 0 E))) =
           Some grayPixel"
    and "grayFrame (outcomeEngine (prepare (flowCv st) exampleVideo (logTick 0 E))) =
           Some grayPixel"
  using assms
  by (auto simp: prepare_def captureFrame_def toGray_def logTick_def refreshStage_def
      needsRefresh_def lenientEngine_def confidentEngine_def fifteenPointEngine_def
      initialEngine_def newEngine_def exampleVideo_def flowCv_def newMat8UC4_def Let_def
      defaultSettings_def fifteenPoints_def matFromArray_def grayPixel_def featuresOk_def)

lemma fifteen_tracked:
  assumes "E = fifteenPointEngine \<or> E = confidentEngine \<or> E = lenientEngine"
  shows "trackedPoints (trackPoints (flowCv st)
            (outcomeEngine (prepare (flowCv st) exampleVideo (logTick 0 E)))) =
         map (\<lambda>i. \<lparr>prev = pointAt fifteenPoints i, curr = pointAt fifteenNext i\<rparr>)
           (filter (spec_retained st fifteenPoints fifteenNext) [0..<rows st])"
proof -
  have r: "rows fifteenPoints \<noteq> 0" by (simp add: fifteenPoints_def matFromArray_def)
  have c: "calcOpticalFlowPyrLK (flowCv st) grayPixel grayPixel fifteenPoints
     (winSize (settings (outcomeEngine (prepare (flowCv st) exampleVideo (logTick 0 E)))))
     (maxLevel (settings (outcomeEngine (prepare (flowCv st) exampleVideo (logTick 0 E))))) =
     Inr (fifteenNext, st, newMat)"
    by (simp add: flowCv_def)
  note e = fifteen_stages [OF assms, of st]
  show ?thesis
    by (simp add: trackPoints_flow [OF e(3) r e(4) e(5) c] filterLoop_char)
qed

lemma fifteen_upt: "[0..<15] = [0, 1, 2, 3, 4, 5, 6, 7, 8, 9, 10, 11, 12, 13, 14::nat]"
  by (simp add: upt_rec)

lemma sqrt_1: "sqrt 1 = 1"
  by simp

lemma fifteen_retained:
  assumes "i < 15"
  shows "spec_retained st fifteenPoints fifteenNext i = (atData st i = Some 1)"
proof -
  from assms have "i \<in> set [0..<15]" by simp
  then have "i \<in> {0, 1, 2, 3, 4, 5, 6, 7, 8, 9, 10, 11, 12, 13, 14}"
    unfolding fifteen_upt by simp
  then show ?thesis
    by (auto simp: spec_retained_def fifteenPoints_def fifteenNext_def
        at32F_def pointAt_def finitePoint_def computedDisplacement_def matFromArray_def
        jsub_def roundDouble_int Let_def)
qed

lemma fifteen_kept:
  "filter (spec_retained statusFifteen fifteenPoints fifteenNext) [0..<rows statusFifteen] = [0..<15]"
  "filter (spec_retained statusEight fifteenPoints fifteenNext) [0..<rows statusEight] = [0..<8]"
  "filter (spec_retained statusThree fifteenPoints fifteenNext) [0..<rows statusThree] = [0..<3]"
proof -
  have a: "filter (spec_retained st fifteenPoints fifteenNext) [0..<15] =
           filter (\<lambda>i. atData st i = Some 1) [0..<15]" for st
    by (rule filter_cong) (simp_all add: fifteen_retained)
  show "filter (spec_retained statusFifteen fifteenPoints fifteenNext) [0..<rows statusFifteen] = [0..<15]"
    "filter (spec_retained statusEight fifteenPoints fifteenNext) [0..<rows statusEight] = [0..<8]"
    "filter (spec_retained statusThree fifteenPoints fifteenNext) [0..<rows statusThree] = [0..<3]"
    by (simp_all add: statusFifteen_def statusEight_def statusThree_def a)
      (simp_all add: upt_rec atData_def)
qed

lemma fifteen_moved:
  assumes "n \<le> 15"
  shows "map (\<lambda>i. \<lparr>prev = pointAt fifteenPoints i, curr = pointAt fifteenNext i\<rparr>) [0..<n] =
         map (\<lambda>i. movedRight (real i) 0) [0..<n]"
proof (rule map_cong [OF refl])
  fix i assume "i \<in> set [0..<n]"
  with assms have "i \<in> set [0..<15]" by simp
  then have "i \<in> {0, 1, 2, 3, 4, 5, 6, 7, 8, 9, 10, 11, 12, 13, 14}"
    unfolding fifteen_upt by simp
  then show "\<lparr>prev = pointAt fifteenPoints i, curr = pointAt fifteenNext i\<rparr> = movedRight (real i) 0"
    by (auto simp: fifteenPoints_def fifteenNext_def at32F_def pointAt_def matFromArray_def
        movedRight_def)
qed

text \<open>The correspondences after a frame of the fifteen points.\<close>

lemma fifteen_frame:
  assumes "E = fifteenPointEngine \<or> E = confidentEngine \<or> E = lenientEngine"
    and "filter (spec_retained st fifteenPoints fifteenNext) [0..<rows st] = [0..<n]"
    and "n \<le> 15"
  shows "trackedPoints (snd (snd (processFrame (flowCv st) 0 exampleVideo E))) =
           map (\<lambda>i. movedRight (real i) 0) [0..<n]"
proof -
  note e = fifteen_engines [OF assms(1)]
  note f = fifteen_stages [OF assms(1), of st]
  have v: "videoWidth exampleVideo \<noteq> 0" "videoHeight exampleVideo \<noteq> 0"
    by (simp_all add: exampleVideo_def)
  have g: "0 < rows grayPixel" by (simp add: grayPixel_def)
  have m: "minFeatures (settings E) \<le> rows fifteenPoints"
    using assms(1)
    by (auto simp: lenientEngine_def confidentEngine_def fifteenPointEngine_def
        initialEngine_def newEngine_def defaultSettings_def fifteenPoints_def matFromArray_def)
  from frame_tracked [OF e(1) v f(1) f(2) e(2) f(3) e(3) g m]
  show ?thesis by (simp add: fifteen_tracked [OF assms(1)] assms(2) fifteen_moved [OF assms(3)])
qed

lemma moved_variance:
  "spec_variance (map (\<lambda>i. movedRight (real i) 0) [0..<8]) = Fin 0"
  "spec_variance (map (\<lambda>i. movedRight (real i) 0) [0..<15]) = Fin 0"
  by (simp_all add: upt_rec spec_variance_def spec_meanDisplacement_def spec_deviation_def
      fmean_def fsum_def jlen_def movedRight_def jsub_def roundDouble_int Let_def)

lemma moved_plane:
  "spec_centroid (map curr (map (\<lambda>i. movedRight (real i) 0) [0..<15])) =
     \<lparr>pt_x = Fin 8, pt_y = Fin 0\<rparr>"
  "spec_meanDisplacement (map (\<lambda>i. movedRight (real i) 0) [0..<15]) =
     \<lparr>m_dx = Fin 1, m_dy = Fin 0\<rparr>"
  by (simp_all add: upt_rec spec_centroid_def spec_meanDisplacement_def
      fmean_def fsum_def jlen_def movedRight_def jsub_def roundDouble_int Let_def)


lemma capped_increment: "jmin (Fin 1) (jadd (Fin 1) (decimal 15 2)) = Fin 1"
proof -
  note lit = literal_fifteen
  have b: "1 \<le> 1 + rd (3 / 20)" "1 + rd (3 / 20) \<le> 2" using lit(2,3) by linarith+
  have p: "- pow2 1024 < 1" "(2::real) < pow2 1024"
    using int53_lt_pow2_1024 [of 2] by simp_all
  from roundDouble_between [OF b rd_small_ints(1) rd_small_ints(2) p]
  have "roundDouble (1 + rd (3 / 20)) = Fin (rd (1 + rd (3 / 20)))"
    and "1 \<le> rd (1 + rd (3 / 20))" by simp_all
  then show ?thesis by (simp add: lit(1) jmin_Fin)
qed

lemma claimed_increment: "jlt (Fin 0) (jmin (Fin 1) (jadd (Fin 0) (decimal 15 2)))"
proof -
  note lit = literal_fifteen
  from literal_between [OF lit(2,3)]
  have "roundDouble (rd (3 / 20)) = Fin (rd (rd (3 / 20)))" and "1 / 16 \<le> rd (rd (3 / 20))"
    by simp_all
  then show ?thesis by (simp add: lit(1) jmin_Fin)
qed

lemma claimed_decrement: "jlt (jmax (Fin 0) (jsub (Fin 1) (decimal 1 1))) (Fin 1)"
proof -
  note lit = literal_tenth
  have b: "0 \<le> 1 - rd (1 / 10)" "1 - rd (1 / 10) \<le> 15 / 16" using lit(2,3) by linarith+
  have q: "rd (15 / 16) = 15 / 16" using rd_exact [of 15 "- 4"] by (simp add: pow2_def)
  have p: "- pow2 1024 < 0" "(15 / 16 :: real) < pow2 1024"
    using int53_lt_pow2_1024 [of 1] by simp_all
  from roundDouble_between [OF b rd_zero q p]
  have "roundDouble (1 - rd (1 / 10)) = Fin (rd (1 - rd (1 / 10)))"
    and "rd (1 - rd (1 / 10)) \<le> 15 / 16" by simp_all
  then show ?thesis by (simp add: lit(1) jsub_Fin jmax_Fin)
qed

lemma fifteen_settings:
  "minFeatures (settings fifteenPointEngine) = 15" "minFeatures (settings confidentEngine) = 15"
  "minFeatures (settings lenientEngine) = 3"
  "planeConfidence fifteenPointEngine = Fin 0" "planeConfidence confidentEngine = Fin 1"
  "planeConfidence lenientEngine = Fin 1"
  "groundPlane fifteenPointEngine = None" "groundPlane confidentEngine = None"
  "groundPlane lenientEngine = None"
  "rows fifteenPoints = 15" "rows grayPixel = 1"
  by (simp_all add: lenientEngine_def confidentEngine_def fifteenPointEngine_def
      initialEngine_def newEngine_def defaultSettings_def fifteenPoints_def matFromArray_def
      grayPixel_def)

lemma example_dimensions: "videoWidth exampleVideo \<noteq> 0" "videoHeight exampleVideo \<noteq> 0"
  by (simp_all add: exampleVideo_def)

theorem coherent_frame_witness:
  "initialized confidentEngine \<and> videoWidth exampleVideo \<noteq> 0 \<and> videoHeight exampleVideo \<noteq> 0 \<and>
   prevGrayFrame confidentEngine = Some grayPixel \<and> featuresOk confidentEngine \<and>
   planeConfidence confidentEngine = Fin 1 \<and>
   length (trackedPoints (snd (snd (processFrame (flowCv statusFifteen) 0 exampleVideo confidentEngine)))) = 15 \<and>
   jlt (spec_variance (trackedPoints (snd (snd (processFrame (flowCv statusFifteen) 0 exampleVideo confidentEngine)))))
     (Fin 100) \<and>
   count_list (fst (snd (processFrame (flowCv statusFifteen) 0 exampleVideo confidentEngine)))
     CallEstimatePlane = 1 \<and>
   planeConfidence (snd (snd (processFrame (flowCv statusFifteen) 0 exampleVideo confidentEngine))) = Fin 1 \<and>
   groundPlane (snd (snd (processFrame (flowCv statusFifteen) 0 exampleVideo confidentEngine))) =
     Some \<lparr>center = \<lparr>pt_x = Fin 8, pt_y = Fin 0\<rparr>, confidence = Fin 1,
           motion = \<lparr>m_dx = Fin 1, m_dy = Fin 0\<rparr>\<rparr> \<and>
   r_isTracking (fst (processFrame (flowCv statusFifteen) 0 exampleVideo confidentEngine)) \<and>
   r_planeCount (fst (processFrame (flowCv statusFifteen) 0 exampleVideo confidentEngine)) = 1"
proof -
  have E: "confidentEngine = fifteenPointEngine \<or> confidentEngine = confidentEngine \<or>
    confidentEngine = lenientEngine" by simp
  note e = fifteen_engines [OF E]
  note f = fifteen_stages [OF E, of statusFifteen]
  note v = example_dimensions
  have t: "trackedPoints (snd (snd (processFrame (flowCv statusFifteen) 0 exampleVideo confidentEngine))) =
    map (\<lambda>i. movedRight (real i) 0) [0..<15]"
    by (rule fifteen_frame [OF E fifteen_kept(1)]) simp
  have n: "8 \<le> length (map (\<lambda>i. movedRight (real i) 0) [0..<15])" by simp
  have c: "jlt (spec_variance (map (\<lambda>i. movedRight (real i) 0) [0..<15])) (Fin 100)"
    by (simp add: moved_variance)
  have i: "Fin 1 = jmin (Fin 1) (jadd (planeConfidence confidentEngine) (decimal 15 2))"
    by (simp add: fifteen_settings capped_increment)
  have cond: "0 < rows grayPixel \<and> minFeatures (settings confidentEngine) \<le> rows fifteenPoints \<and>
    minFeatures (settings confidentEngine) \<le> length (map (\<lambda>i. movedRight (real i) 0) [0..<15])"
    by (simp add: fifteen_settings)
  from coherent_frame [OF e(1) v f(1) f(2) e(2) f(3) e(3) t n c i]
  have "count_list (fst (snd (processFrame (flowCv statusFifteen) 0 exampleVideo confidentEngine)))
     CallEstimatePlane = 1 \<and>
   planeConfidence (snd (snd (processFrame (flowCv statusFifteen) 0 exampleVideo confidentEngine))) = Fin 1 \<and>
   groundPlane (snd (snd (processFrame (flowCv statusFifteen) 0 exampleVideo confidentEngine))) =
     Some \<lparr>center = \<lparr>pt_x = Fin 8, pt_y = Fin 0\<rparr>, confidence = Fin 1,
           motion = \<lparr>m_dx = Fin 1, m_dy = Fin 0\<rparr>\<rparr> \<and>
   r_isTracking (fst (processFrame (flowCv statusFifteen) 0 exampleVideo confidentEngine)) \<and>
   r_planeCount (fst (processFrame (flowCv statusFifteen) 0 exampleVideo confidentEngine)) = 1"
    unfolding if_P [OF cond] moved_plane by simp
  with e v t c show ?thesis by (simp add: fifteen_settings)
qed

text \<open>
  The claim C2 as the specification states it fails: in the frame below the optical flow
  keeps eight of the fifteen followed points, each moved by one pixel to the right, so
  the frame has eight correspondences and their displacement variance is 0; yet
  \<^verbatim>\<open>estimatePlane\<close> is not called, because eight is below \<^verbatim>\<open>minFeatures\<close>. The
  confidence stays 0, below the incremented value, and no plane is stored.
\<close>

theorem eight_coherent_counterexample:
  "initialized fifteenPointEngine \<and>
   videoWidth exampleVideo \<noteq> 0 \<and> videoHeight exampleVideo \<noteq> 0 \<and>
   length (trackedPoints (snd (snd (processFrame (flowCv statusEight) 0 exampleVideo fifteenPointEngine)))) = 8 \<and>
   jlt (spec_variance (trackedPoints (snd (snd (processFrame (flowCv statusEight) 0 exampleVideo fifteenPointEngine)))))
     (Fin 100) \<and>
   count_list (fst (snd (processFrame (flowCv statusEight) 0 exampleVideo fifteenPointEngine)))
     CallEstimatePlane = 0 \<and>
   planeConfidence fifteenPointEngine = Fin 0 \<and>
   planeConfidence (snd (snd (processFrame (flowCv statusEight) 0 exampleVideo fifteenPointEngine))) = Fin 0 \<and>
   jlt (Fin 0) (jmin (Fin 1) (jadd (Fin 0) (decimal 15 2))) \<and>
   groundPlane (snd (snd (processFrame (flowCv statusEight) 0 exampleVideo fifteenPointEngine))) = None \<and>
   r_planeCount (fst (processFrame (flowCv statusEight) 0 exampleVideo fifteenPointEngine)) = 0"
proof -
  have E: "fifteenPointEngine = fifteenPointEngine \<or> fifteenPointEngine = confidentEngine \<or>
    fifteenPointEngine = lenientEngine" by simp
  note e = fifteen_engines [OF E]
  note f = fifteen_stages [OF E, of statusEight]
  note v = example_dimensions
  have t: "trackedPoints (snd (snd (processFrame (flowCv statusEight) 0 exampleVideo fifteenPointEngine))) =
    map (\<lambda>i. movedRight (real i) 0) [0..<8]"
    by (rule fifteen_frame [OF E fifteen_kept(2)]) simp
  have k: "\<not> (0 < rows grayPixel \<and> minFeatures (settings fifteenPointEngine) \<le> rows fifteenPoints \<and>
    minFeatures (settings fifteenPointEngine) \<le> length (trackedPoints (trackPoints (flowCv statusEight)
      (outcomeEngine (prepare (flowCv statusEight) exampleVideo (logTick 0 fifteenPointEngine))))))"
    by (simp add: fifteen_tracked [OF E] fifteen_kept fifteen_settings)
  from frame_without_estimate [OF e(1) v f(1) f(2) e(2) f(3) e(3) k] e v t claimed_increment
  show ?thesis by (simp add: fifteen_settings moved_variance)
qed

theorem few_correspondences_frame_witness:
  "initialized lenientEngine \<and> videoWidth exampleVideo \<noteq> 0 \<and> videoHeight exampleVideo \<noteq> 0 \<and>
   prevGrayFrame lenientEngine = Some grayPixel \<and> featuresOk lenientEngine \<and>
   planeConfidence lenientEngine = Fin 1 \<and> inUnit (planeConfidence lenientEngine) \<and>
   minFeatures (settings lenientEngine) = 3 \<and>
   length (trackedPoints (snd (snd (processFrame (flowCv statusThree) 0 exampleVideo lenientEngine)))) = 3 \<and>
   count_list (fst (snd (processFrame (flowCv statusThree) 0 exampleVideo lenientEngine)))
     CallEstimatePlane = 1 \<and>
   r_planeCount (fst (processFrame (flowCv statusThree) 0 exampleVideo lenientEngine)) = 0 \<and>
   \<not> r_isTracking (fst (processFrame (flowCv statusThree) 0 exampleVideo lenientEngine)) \<and>
   groundPlane (snd (snd (processFrame (flowCv statusThree) 0 exampleVideo lenientEngine))) = None \<and>
   planeConfidence (snd (snd (processFrame (flowCv statusThree) 0 exampleVideo lenientEngine))) =
     jmax (Fin 0) (jsub (Fin 1) (decimal 1 1)) \<and>
   \<not> jlt (Fin 1)
     (planeConfidence (snd (snd (processFrame (flowCv statusThree) 0 exampleVideo lenientEngine))))"
proof -
  have E: "lenientEngine = fifteenPointEngine \<or> lenientEngine = confidentEngine \<or>
    lenientEngine = lenientEngine" by simp
  note e = fifteen_engines [OF E]
  note f = fifteen_stages [OF E, of statusThree]
  note v = example_dimensions
  have t: "trackedPoints (snd (snd (processFrame (flowCv statusThree) 0 exampleVideo lenientEngine))) =
    map (\<lambda>i. movedRight (real i) 0) [0..<3]"
    by (rule fifteen_frame [OF E fifteen_kept(3)]) simp
  have n: "length (map (\<lambda>i. movedRight (real i) 0) [0..<3]) < 8" by simp
  have u: "inUnit (planeConfidence lenientEngine)"
    by (simp add: fifteen_settings inUnit_def)
  from few_correspondences_frame [OF e(1) v f(1) f(2) e(2) f(3) e(3) t n] u
  have "count_list (fst (snd (processFrame (flowCv statusThree) 0 exampleVideo lenientEngine)))
     CallEstimatePlane = 1 \<and>
   r_planeCount (fst (processFrame (flowCv statusThree) 0 exampleVideo lenientEngine)) = 0 \<and>
   \<not> r_isTracking (fst (processFrame (flowCv statusThree) 0 exampleVideo lenientEngine)) \<and>
   groundPlane (snd (snd (processFrame (flowCv statusThree) 0 exampleVideo lenientEngine))) = None \<and>
   planeConfidence (snd (snd (processFrame (flowCv statusThree) 0 exampleVideo lenientEngine))) =
     jmax (Fin 0) (jsub (Fin 1) (decimal 1 1)) \<and>
   \<not> jlt (Fin 1)
     (planeConfidence (snd (snd (processFrame (flowCv statusThree) 0 exampleVideo lenientEngine))))"
    by (auto simp: fifteen_settings)
  with e v t u show ?thesis by (auto simp: fifteen_settings)
qed

text \<open>
  The claim C3 as the specification states it fails: in the frame below the optical flow
  keeps three of the fifteen followed points, so the frame has three correspondences;
  \<^verbatim>\<open>estimatePlane\<close> is not called, because three is below \<^verbatim>\<open>minFeatures\<close>, and
  the confidence stays 1 where the decrement would have put it below 1.
\<close>

theorem three_correspondences_counterexample:
  "initialized confidentEngine \<and>
   videoWidth exampleVideo \<noteq> 0 \<and> videoHeight exampleVideo \<noteq> 0 \<and>
   length (trackedPoints (snd (snd (processFrame (flowCv statusThree) 0 exampleVideo confidentEngine)))) = 3 \<and>
   count_list (fst (snd (processFrame (flowCv statusThree) 0 exampleVideo confidentEngine)))
     CallEstimatePlane = 0 \<and>
   planeConfidence confidentEngine = Fin 1 \<and>
   planeConfidence (snd (snd (processFrame (flowCv statusThree) 0 exampleVideo confidentEngine))) = Fin 1 \<and>
   jlt (jmax (Fin 0) (jsub (Fin 1) (decimal 1 1))) (Fin 1)"
proof -
  have E: "confidentEngine = fifteenPointEngine \<or> confidentEngine = confidentEngine \<or>
    confidentEngine = lenientEngine" by simp
  note e = fifteen_engines [OF E]
  note f = fifteen_stages [OF E, of statusThree]
  note v = example_dimensions
  have t: "trackedPoints (snd (snd (processFrame (flowCv statusThree) 0 exampleVideo confidentEngine))) =
    map (\<lambda>i. movedRight (real i) 0) [0..<3]"
    by (rule fifteen_frame [OF E fifteen_kept(3)]) simp
  have k: "\<not> (0 < rows grayPixel \<and> minFeatures (settings confidentEngine) \<le> rows fifteenPoints \<and>
    minFeatures (settings confidentEngine) \<le> length (trackedPoints (trackPoints (flowCv statusThree)
      (outcomeEngine (prepare (flowCv statusThree) exampleVideo (logTick 0 confidentEngine))))))"
    by (simp add: fifteen_tracked [OF E] fifteen_kept fifteen_settings)
  from frame_without_estimate [OF e(1) v f(1) f(2) e(2) f(3) e(3) k] e v t claimed_decrement
  show ?thesis by (simp add: fifteen_settings)
qed


section \<open>The increment is rounded\<close>

text \<open>
  The double 0.15, and the sum of 0.35000000000000003 and 0.15: the real sum lies a
  quarter of the way from 0.5 to the next double and is rounded to 0.5.
\<close>

lemma literal_fifteen_value: "rd (3 / 20) = 5404319552844595 / 2 ^ 55"
proof -
  have "rd (3 / 20) = of_int 5404319552844595 * pow2 (- 3 - 52)"
    by (rule rd_round) (simp_all add: pow2_def)
  then show ?thesis by (simp add: pow2_def)
qed

lemma half_sum: "rd (6305039478318695 / 2 ^ 54 + 5404319552844595 / 2 ^ 55) = 1 / 2"
proof -
  have "rd (6305039478318695 / 2 ^ 54 + 5404319552844595 / 2 ^ 55) =
      of_int 4503599627370496 * pow2 (- 1 - 52)"
    by (rule rd_round) (simp_all add: pow2_def)
  then show ?thesis by (simp add: pow2_def)
qed

lemma increment_to_half:
  "jmin (Fin 1) (jadd (Fin (6305039478318695 / 2 ^ 54)) (decimal 15 2)) = Fin (1 / 2)"
proof -
  have a: "jadd (Fin (6305039478318695 / 2 ^ 54)) (decimal 15 2) =
           roundDouble (6305039478318695 / 2 ^ 54 + 5404319552844595 / 2 ^ 55)"
    by (simp only: literal_fifteen(1) literal_fifteen_value jadd.simps)
  have "roundDouble (6305039478318695 / 2 ^ 54 + 5404319552844595 / 2 ^ 55) =
        Fin (rd (6305039478318695 / 2 ^ 54 + 5404319552844595 / 2 ^ 55))"
    by (rule roundDouble_small) simp
  then have b: "roundDouble (6305039478318695 / 2 ^ 54 + 5404319552844595 / 2 ^ 55) = Fin (1 / 2)"
    by (simp only: half_sum)
  show ?thesis by (simp only: a b jmin_Fin) simp
qed

text \<open>
  From the confidence 0.35000000000000003 a coherent step with eight correspondences
  gives the confidence 0.5 and reports no plane, where the sum of the two reals exceeds
  0.5.
\<close>

lemma estimatePlane_rounds_to_half:
  assumes "8 \<le> length (trackedPoints s)"
    and "jlt (spec_variance (trackedPoints s)) (Fin 100)"
    and "planeConfidence s = Fin (6305039478318695 / 2 ^ 54)"
  shows "\<not> fst (estimatePlane s)"
    and "planeConfidence (snd (estimatePlane s)) = Fin (1 / 2)"
    and "(1 / 2 :: real) < 6305039478318695 / 2 ^ 54 + 15 / 100"
proof -
  note e = estimatePlane_coherent [OF assms(1,2)]
  have c: "jmin (Fin 1) (jadd (planeConfidence s) (decimal 15 2)) = Fin (1 / 2)"
    by (simp only: assms(3) increment_to_half)
  show "\<not> fst (estimatePlane s)"
    by (simp add: e c)
  show "planeConfidence (snd (estimatePlane s)) = Fin (1 / 2)"
    by (simp add: e c)
  show "(1 / 2 :: real) < 6305039478318695 / 2 ^ 54 + 15 / 100" by simp
qed


end
